theory Spec2Isabelle
  imports Complex_Main
begin

section \<open>Tensors, configuration and errors\<close>

text \<open>
  The modules of \<^verbatim>\<open>mhnfs/modules.py\<close> compute on tensors of rank two and three.
  A tensor of shape \<open>[B, L, D]\<close> is a list of \<open>B\<close> batch entries, each a list of \<open>L\<close>
  slots, each a vector of \<open>D\<close> numbers; a tensor of shape \<open>[B, P]\<close> is a list of \<open>B\<close>
  rows of \<open>P\<close> entries. Layout operations (concatenation, reshaping, slicing) are
  polymorphic in the entry type. The similarity scorer computes on float32 entries,
  modelled below with rounding, overflow, underflow, infinities and NaN.
\<close>

type_synonym 'a tensor2 = "'a list list"
type_synonym 'a tensor3 = "'a list list list"

definition has_shape2 :: "'a tensor2 \<Rightarrow> nat \<Rightarrow> nat \<Rightarrow> bool" where
  "has_shape2 t B P \<longleftrightarrow> length t = B \<and> list_all (\<lambda>r. length r = P) t"

definition has_shape3 :: "'a tensor3 \<Rightarrow> nat \<Rightarrow> nat \<Rightarrow> nat \<Rightarrow> bool" where
  "has_shape3 t B L D \<longleftrightarrow>
     length t = B \<and> list_all (\<lambda>r. length r = L \<and> list_all (\<lambda>v. length v = D) r) t"

text \<open>
  Python raises \<^verbatim>\<open>KeyError\<close> on a missing dictionary key and \<^verbatim>\<open>AttributeError\<close> on a
  missing attribute; torch raises \<^verbatim>\<open>ValueError\<close> on a dropout probability outside
  \<open>[0, 1]\<close>, \<^verbatim>\<open>IndexError\<close> on an index out of range and \<^verbatim>\<open>RuntimeError\<close>
  (\<open>ShapeError\<close>) when the sizes of its operands do not fit.
\<close>

datatype error =
  KeyError string | AttributeError string | ValueError string | IndexError | ShapeError

definition getitem :: "(string \<times> 'v) list \<Rightarrow> string \<Rightarrow> error + 'v" where
  "getitem d k = (case map_of d k of None \<Rightarrow> Inl (KeyError k) | Some v \<Rightarrow> Inr v)"

section \<open>Float32 arithmetic\<close>

text \<open>
  The entries of the embedding tensors are IEEE 754 binary32 numbers. A finite float is
  the real number it denotes; the two infinities and NaN are values of their own. The two
  zeros of IEEE are one value here: the sign of zero shows only in the sign of the
  infinity that a division by zero gives, which the model takes as for \<open>+0\<close>.

  \<open>pow2 k\<close> is the power of two with the integer exponent \<open>k\<close>.
  \<open>round_to_float32\<close> rounds a real to the nearest number with a 24-bit significand and
  an exponent of at least \<open>-126\<close> (below it the subnormal numbers, multiples of
  \<open>pow2 (- 149)\<close>), ties to the even significand; \<open>round32\<close> then overflows to an
  infinity beyond the largest float.
\<close>

definition pow2 :: "int \<Rightarrow> real" where
  "pow2 k = (if 0 \<le> k then 2 ^ nat k else 1 / 2 ^ nat (- k))"

definition round_half_even :: "real \<Rightarrow> int" where
  "round_half_even y =
     (let f = \<lfloor>y\<rfloor>; d = y - of_int f
      in if d < 1 / 2 then f else if 1 / 2 < d then f + 1 else if even f then f else f + 1)"

definition exponent32 :: "real \<Rightarrow> int" where
  "exponent32 x = max (- 126) \<lfloor>log 2 \<bar>x\<bar>\<rfloor>"

definition round_to_float32 :: "real \<Rightarrow> real" where
  "round_to_float32 x =
     (if x = 0 then 0
      else of_int (round_half_even (x / pow2 (exponent32 x - 23))) * pow2 (exponent32 x - 23))"

definition max_float32 :: real where
  "max_float32 = (2 ^ 24 - 1) * 2 ^ 104"

datatype float32 = Fin real | PInf | NInf | NaN

definition round32 :: "real \<Rightarrow> float32" where
  "round32 r =
     (let y = round_to_float32 r
      in if max_float32 < y then PInf else if y < - max_float32 then NInf else Fin y)"

text \<open>
  Addition, multiplication, division and square root: the special values as IEEE 754
  prescribes, a finite result rounded.
\<close>

fun fadd :: "float32 \<Rightarrow> float32 \<Rightarrow> float32" where
  "fadd NaN y = NaN"
| "fadd x NaN = NaN"
| "fadd (Fin a) (Fin b) = round32 (a + b)"
| "fadd PInf NInf = NaN"
| "fadd NInf PInf = NaN"
| "fadd PInf y = PInf"
| "fadd x PInf = PInf"
| "fadd NInf y = NInf"
| "fadd x NInf = NInf"

fun fmul :: "float32 \<Rightarrow> float32 \<Rightarrow> float32" where
  "fmul NaN y = NaN"
| "fmul x NaN = NaN"
| "fmul (Fin a) (Fin b) = round32 (a * b)"
| "fmul (Fin a) PInf = (if a = 0 then NaN else if 0 < a then PInf else NInf)"
| "fmul (Fin a) NInf = (if a = 0 then NaN else if 0 < a then NInf else PInf)"
| "fmul PInf (Fin b) = (if b = 0 then NaN else if 0 < b then PInf else NInf)"
| "fmul NInf (Fin b) = (if b = 0 then NaN else if 0 < b then NInf else PInf)"
| "fmul PInf PInf = PInf"
| "fmul PInf NInf = NInf"
| "fmul NInf PInf = NInf"
| "fmul NInf NInf = PInf"

fun fdiv :: "float32 \<Rightarrow> float32 \<Rightarrow> float32" where
  "fdiv NaN y = NaN"
| "fdiv x NaN = NaN"
| "fdiv (Fin a) (Fin b) =
     (if b = 0 then (if a = 0 then NaN else if 0 < a then PInf else NInf)
      else round32 (a / b))"
| "fdiv (Fin a) PInf = Fin 0"
| "fdiv (Fin a) NInf = Fin 0"
| "fdiv PInf (Fin b) = (if 0 \<le> b then PInf else NInf)"
| "fdiv NInf (Fin b) = (if 0 \<le> b then NInf else PInf)"
| "fdiv PInf PInf = NaN"
| "fdiv PInf NInf = NaN"
| "fdiv NInf PInf = NaN"
| "fdiv NInf NInf = NaN"

fun fsqrt :: "float32 \<Rightarrow> float32" where
  "fsqrt NaN = NaN"
| "fsqrt (Fin a) = (if a < 0 then NaN else round32 (sqrt a))"
| "fsqrt PInf = PInf"
| "fsqrt NInf = NaN"

text \<open>
  A sum along an axis. torch does not fix the order in which a reduction or a matrix
  product accumulates; the model adds from the last element to the first, starting at 0.
\<close>

definition fsum :: "float32 list \<Rightarrow> float32" where
  "fsum xs = foldr fadd xs (Fin 0)"

definition is_finite32 :: "float32 \<Rightarrow> bool" where
  "is_finite32 x = (case x of Fin a \<Rightarrow> True | _ \<Rightarrow> False)"

text \<open>
  The reals that are float32 numbers up to overflow, and the values of the model that
  are float32 values: every operation above returns one.
\<close>

definition representable32 :: "real \<Rightarrow> bool" where
  "representable32 x \<longleftrightarrow> (\<exists>n k. x = of_int n * pow2 k \<and> \<bar>n\<bar> < 2 ^ 24 \<and> - 149 \<le> k)"

definition is_float32 :: "float32 \<Rightarrow> bool" where
  "is_float32 x = (case x of Fin a \<Rightarrow> round32 a = Fin a | _ \<Rightarrow> True)"

section \<open>Mappings and the encoder block\<close>

datatype activation_function = ReLU | SELU | Sigmoid

datatype dropout_class = Dropout | AlphaDropout

definition activation_function_mapping :: "(string \<times> activation_function) list" where
  "activation_function_mapping =
     [(''relu'', ReLU), (''selu'', SELU), (''sigmoid'', Sigmoid)]"

definition dropout_mapping :: "(string \<times> dropout_class) list" where
  "dropout_mapping = [(''relu'', Dropout), (''selu'', AlphaDropout)]"

text \<open>
  The fields of \<^verbatim>\<open>cfg.model.encoder\<close> and \<^verbatim>\<open>cfg.model.associationSpace_dim\<close> read by
  \<^verbatim>\<open>EncoderBlock.__init__\<close>.
\<close>

record encoder_cfg =
  activation :: string
  input_dim :: nat
  number_hidden_neurons :: nat
  number_hidden_layers :: nat
  input_dropout :: real
  regularization_dropout :: real
  associationSpace_dim :: nat

text \<open>
  A dropout layer is its class and rate, a linear layer its input and output width. The
  constructors of \<^verbatim>\<open>nn.Dropout\<close> and \<^verbatim>\<open>nn.AlphaDropout\<close> raise \<^verbatim>\<open>ValueError\<close> for a
  rate below 0 or above 1.
\<close>

definition new_dropout :: "dropout_class \<Rightarrow> real \<Rightarrow> error + dropout_class \<times> real" where
  "new_dropout cls p =
     (if p < 0 \<or> 1 < p then Inl (ValueError ''dropout probability has to be between 0 and 1'')
      else Inr (cls, p))"

record encoder_block =
  dropout :: "dropout_class \<times> real"
  fc :: "nat \<times> nat"
  act :: activation_function
  hidden_dropout_layers :: "(dropout_class \<times> real) list"
  hidden_linear_layers :: "(nat \<times> nat) list"
  hidden_activations :: "activation_function list"
  dropout_o :: "dropout_class \<times> real"
  fc_o :: "nat \<times> nat"
  act_o :: activation_function

text \<open>
  The loop \<^verbatim>\<open>for _ in range(cfg.model.encoder.number_hidden_layers)\<close>: every round
  looks the activation name up in \<open>dropout_mapping\<close> and builds the dropout layer, then
  looks it up in \<open>activation_function_mapping\<close>, and appends to the three module lists.
\<close>

fun hidden_layers ::
  "encoder_cfg \<Rightarrow> nat \<Rightarrow>
   (dropout_class \<times> real) list \<times> (nat \<times> nat) list \<times> activation_function list \<Rightarrow>
   error + (dropout_class \<times> real) list \<times> (nat \<times> nat) list \<times> activation_function list"
where
  "hidden_layers cfg 0 acc = Inr acc"
| "hidden_layers cfg (Suc n) (ds, ls, as) =
     (case getitem dropout_mapping (activation cfg) of
        Inl e \<Rightarrow> Inl e
      | Inr cls \<Rightarrow>
     (case new_dropout cls (regularization_dropout cfg) of
        Inl e \<Rightarrow> Inl e
      | Inr d \<Rightarrow>
     (case getitem activation_function_mapping (activation cfg) of
        Inl e \<Rightarrow> Inl e
      | Inr a \<Rightarrow>
          hidden_layers cfg n
            (ds @ [d],
             ls @ [(number_hidden_neurons cfg, number_hidden_neurons cfg)],
             as @ [a]))))"

text \<open>
  \<^verbatim>\<open>EncoderBlock.__init__\<close>. The weight initialisation \<^verbatim>\<open>init_weights\<close> lives in
  \<^verbatim>\<open>mhnfs/initialization.py\<close>; it is the parameter \<open>init_weights\<close>, applied to the
  activation name and the finished block, and may fail.
\<close>

definition EncoderBlock_init ::
  "(string \<Rightarrow> encoder_block \<Rightarrow> error + encoder_block) \<Rightarrow> encoder_cfg \<Rightarrow>
   error + encoder_block"
where
  "EncoderBlock_init init_weights cfg =
     (case getitem dropout_mapping (activation cfg) of
        Inl e \<Rightarrow> Inl e
      | Inr cls_in \<Rightarrow>
     (case new_dropout cls_in (input_dropout cfg) of
        Inl e \<Rightarrow> Inl e
      | Inr d_in \<Rightarrow>
     (case getitem activation_function_mapping (activation cfg) of
        Inl e \<Rightarrow> Inl e
      | Inr a_in \<Rightarrow>
     (case hidden_layers cfg (number_hidden_layers cfg) ([], [], []) of
        Inl e \<Rightarrow> Inl e
      | Inr (ds, ls, as) \<Rightarrow>
     (case getitem dropout_mapping (activation cfg) of
        Inl e \<Rightarrow> Inl e
      | Inr cls_out \<Rightarrow>
     (case new_dropout cls_out (regularization_dropout cfg) of
        Inl e \<Rightarrow> Inl e
      | Inr d_out \<Rightarrow>
     (case getitem activation_function_mapping (activation cfg) of
        Inl e \<Rightarrow> Inl e
      | Inr a_out \<Rightarrow>
          init_weights (activation cfg)
            \<lparr> dropout = d_in,
              fc = (input_dim cfg, number_hidden_neurons cfg),
              act = a_in,
              hidden_dropout_layers = ds,
              hidden_linear_layers = ls,
              hidden_activations = as,
              dropout_o = d_out,
              fc_o = (number_hidden_neurons cfg, associationSpace_dim cfg),
              act_o = a_out \<rparr>)))))))"

section \<open>Layer-normalising block\<close>

text \<open>
  \<^verbatim>\<open>LayerNormalizingBlock\<close>: the constructor creates the three \<^verbatim>\<open>nn.LayerNorm\<close>
  instances only when \<^verbatim>\<open>cfg.model.layerNormBlock.usage\<close> is set, so each is an
  optional attribute. \<^verbatim>\<open>nn.LayerNorm\<close> belongs to torch; the parameter \<open>LayerNorm\<close>
  of the constructor builds an instance from the normalised width and the affine flag.
\<close>

record layerNormBlock_cfg =
  usage :: bool
  affine :: bool
  ln_associationSpace_dim :: nat

record 'a layer_normalizing_block =
  ln_cfg :: layerNormBlock_cfg
  layernorm_query :: "('a tensor3 \<Rightarrow> 'a tensor3) option"
  layernorm_support_actives :: "('a tensor3 \<Rightarrow> 'a tensor3) option"
  layernorm_support_inactives :: "('a tensor3 \<Rightarrow> 'a tensor3) option"

definition LayerNormalizingBlock_init ::
  "(nat \<Rightarrow> bool \<Rightarrow> 'a tensor3 \<Rightarrow> 'a tensor3) \<Rightarrow> layerNormBlock_cfg \<Rightarrow>
   'a layer_normalizing_block"
where
  "LayerNormalizingBlock_init LayerNorm cfg =
     (if usage cfg then
        \<lparr> ln_cfg = cfg,
          layernorm_query = Some (LayerNorm (ln_associationSpace_dim cfg) (affine cfg)),
          layernorm_support_actives =
            Some (LayerNorm (ln_associationSpace_dim cfg) (affine cfg)),
          layernorm_support_inactives =
            Some (LayerNorm (ln_associationSpace_dim cfg) (affine cfg)) \<rparr>
      else
        \<lparr> ln_cfg = cfg, layernorm_query = None, layernorm_support_actives = None,
          layernorm_support_inactives = None \<rparr>)"

definition call_attr ::
  "string \<Rightarrow> ('a tensor3 \<Rightarrow> 'a tensor3) option \<Rightarrow> 'a tensor3 \<Rightarrow> error + 'a tensor3"
where
  "call_attr name m x = (case m of None \<Rightarrow> Inl (AttributeError name) | Some f \<Rightarrow> Inr (f x))"

text \<open>
  \<^verbatim>\<open>LayerNormalizingBlock.forward\<close>; the inactive support set may be \<^verbatim>\<open>None\<close>.
\<close>

definition LayerNormalizingBlock_forward ::
  "'a layer_normalizing_block \<Rightarrow> 'a tensor3 \<Rightarrow> 'a tensor3 \<Rightarrow> 'a tensor3 option \<Rightarrow>
   error + 'a tensor3 \<times> 'a tensor3 \<times> 'a tensor3 option"
where
  "LayerNormalizingBlock_forward self query_embedding support_actives_embedding
       support_inactives_embedding =
     (if usage (ln_cfg self) then
        (case call_attr ''layernorm_query'' (layernorm_query self) query_embedding of
           Inl e \<Rightarrow> Inl e
         | Inr q \<Rightarrow>
        (case call_attr ''layernorm_support_actives'' (layernorm_support_actives self)
                support_actives_embedding of
           Inl e \<Rightarrow> Inl e
         | Inr a \<Rightarrow>
        (case support_inactives_embedding of
           None \<Rightarrow> Inr (q, a, None)
         | Some i0 \<Rightarrow>
             (case call_attr ''layernorm_support_inactives''
                     (layernorm_support_inactives self) i0 of
                Inl e \<Rightarrow> Inl e
              | Inr i \<Rightarrow> Inr (q, a, Some i)))))
      else Inr (query_embedding, support_actives_embedding, support_inactives_embedding))"

section \<open>Layout operations on tensors\<close>

text \<open>
  \<open>shape1\<close> reads \<^verbatim>\<open>t.shape[1]\<close> off the first batch entry. For an empty batch the
  lists do not record it and the model reads 0; no result below depends on that value.
\<close>

definition shape1 :: "'a tensor3 \<Rightarrow> nat" where
  "shape1 t = (case t of [] \<Rightarrow> 0 | r # _ \<Rightarrow> length r)"

text \<open>
  \<^verbatim>\<open>torch.cat(..., dim=1)\<close> of three tensors of rank three joins the slots of each batch
  entry. It raises unless the batch sizes agree and all vectors have one width.
\<close>

definition cat_dim1_compatible :: "'a tensor3 \<Rightarrow> 'a tensor3 \<Rightarrow> 'a tensor3 \<Rightarrow> bool" where
  "cat_dim1_compatible x y z \<longleftrightarrow>
     length y = length x \<and> length z = length x \<and>
     (case concat (x @ y @ z) of
        [] \<Rightarrow> True
      | v # vs \<Rightarrow> list_all (\<lambda>u. length u = length v) vs)"

definition cat_dim1 :: "'a list list \<Rightarrow> 'a list list \<Rightarrow> 'a list list \<Rightarrow> 'a list list" where
  "cat_dim1 x y z = map (\<lambda>(r, s, t). r @ s @ t) (zip x (zip y z))"

text \<open>\<^verbatim>\<open>torch.cat([x, y], dim=2)\<close>: the vectors of equal slots are joined.\<close>

definition cat_dim2 :: "'a tensor3 \<Rightarrow> 'a tensor3 \<Rightarrow> 'a tensor3" where
  "cat_dim2 x y = map2 (map2 (@)) x y"

text \<open>
  The Python slice \<^verbatim>\<open>v[:k]\<close>: a negative stop counts from the end, a stop beyond the
  end is clipped to the length.
\<close>

definition slice_to :: "int \<Rightarrow> 'a list \<Rightarrow> 'a list" where
  "slice_to k v = (if k < 0 then take (length v - nat (- k)) v else take (nat k) v)"

definition slice_dim2_to :: "int \<Rightarrow> 'a tensor3 \<Rightarrow> 'a tensor3" where
  "slice_dim2_to k x = map (map (slice_to k)) x"

definition zeros_like :: "'a::zero tensor3 \<Rightarrow> 'a tensor3" where
  "zeros_like x = map (map (map (\<lambda>_. 0))) x"

definition ones_like :: "'a::one tensor3 \<Rightarrow> 'a tensor3" where
  "ones_like x = map (map (map (\<lambda>_. 1))) x"

definition scalar_mul :: "'a::times \<Rightarrow> 'a tensor3 \<Rightarrow> 'a tensor3" where
  "scalar_mul c x = map (map (map (\<lambda>e. c * e))) x"

definition add3 :: "'a::plus tensor3 \<Rightarrow> 'a tensor3 \<Rightarrow> 'a tensor3" where
  "add3 x y = map2 (map2 (map2 (+))) x y"

definition same_shape3 :: "'a tensor3 \<Rightarrow> 'a tensor3 \<Rightarrow> bool" where
  "same_shape3 x y \<longleftrightarrow> map (map length) x = map (map length) y"

text \<open>
  \<^verbatim>\<open>s.reshape(1, s.shape[0] * s.shape[1], s.shape[2])\<close> keeps the row-major order of
  the vectors: the slots of all batch entries in one sequence. \<open>reshape_B_L\<close> is the
  reshape of such a sequence back to \<open>B\<close> entries of \<open>L\<close> slots.
\<close>

definition reshape_1_BL :: "'a tensor3 \<Rightarrow> 'a tensor3" where
  "reshape_1_BL s = [concat s]"

fun chunks :: "nat \<Rightarrow> nat \<Rightarrow> 'a list \<Rightarrow> 'a list list" where
  "chunks 0 L xs = []"
| "chunks (Suc B) L xs = take L xs # chunks B L (drop L xs)"

definition reshape_B_L :: "nat \<Rightarrow> nat \<Rightarrow> 'a tensor3 \<Rightarrow> 'a tensor3" where
  "reshape_B_L B L t = chunks B L (concat t)"

section \<open>Context module\<close>

text \<open>
  \<^verbatim>\<open>ContextModule.forward\<close>. The Hopfield layer of \<^verbatim>\<open>mhnfs/hopfield/modules.py\<close> is the
  parameter \<open>hopfield\<close>, called with the triple (stored patterns, state patterns,
  pattern projection). Its output has the shape of the state patterns
  (\<^verbatim>\<open>output_size\<close> is the association-space width). For a retrieval of another shape
  torch raises, or broadcasts an axis of size one; the model stops with \<open>ShapeError\<close>
  in both cases. Indexing slot 0 of a tensor without slots raises.
\<close>

definition ContextModule_forward ::
  "('a::plus tensor3 \<times> 'a tensor3 \<times> 'a tensor3 \<Rightarrow> 'a tensor3) \<Rightarrow>
   'a tensor3 \<Rightarrow> 'a tensor3 \<Rightarrow> 'a tensor3 \<Rightarrow> 'a tensor3 \<Rightarrow>
   error + 'a tensor3 \<times> 'a tensor3 \<times> 'a tensor3"
where
  "ContextModule_forward hopfield query_embedding support_actives_embedding
       support_inactives_embedding context_set_embedding =
     (if \<not> cat_dim1_compatible query_embedding support_actives_embedding
              support_inactives_embedding
      then Inl ShapeError
      else
        let s = cat_dim1 query_embedding support_actives_embedding
                  support_inactives_embedding;
            s_flattend = reshape_1_BL s;
            s_h = hopfield (context_set_embedding, s_flattend, context_set_embedding)
        in if \<not> same_shape3 s_h s_flattend then Inl ShapeError
           else
             let s_updated = add3 s_flattend s_h;
                 s_updated_inputShape = reshape_B_L (length s) (shape1 s) s_updated
             in if list_ex (\<lambda>r. r = []) s_updated_inputShape
                then Inl IndexError
                else
                  let padding_size_actives = shape1 support_actives_embedding
                  in Inr (map (\<lambda>r. [hd r]) s_updated_inputShape,
                          map (\<lambda>r. take padding_size_actives (drop 1 r))
                            s_updated_inputShape,
                          map (\<lambda>r. drop (padding_size_actives + 1) r)
                            s_updated_inputShape))"

section \<open>Cross-attention module\<close>

text \<open>
  \<^verbatim>\<open>CrossAttentionModule.forward\<close> up to the call of the transformer: the activity
  encoding, the joint sequence \<open>s\<close> and the key-padding mask. The field is
  \<^verbatim>\<open>cfg.model.transformer.activity_embedding_dim\<close>.
\<close>

record transformer_cfg =
  activity_embedding_dim :: int

text \<open>
  \<^verbatim>\<open>CrossAttentionModule.__init__\<close> builds the transformer layers with
  \<^verbatim>\<open>d_model = associationSpace_dim + activity_embedding_dim\<close>.
\<close>

definition transformer_d_model :: "nat \<Rightarrow> transformer_cfg \<Rightarrow> int" where
  "transformer_d_model D cfg = int D + activity_embedding_dim cfg"

definition encode_query :: "transformer_cfg \<Rightarrow> 'a::ring_1 tensor3 \<Rightarrow> 'a tensor3" where
  "encode_query cfg query_embedding =
     cat_dim2 query_embedding
       (zeros_like (slice_dim2_to (activity_embedding_dim cfg) query_embedding))"

definition encode_actives :: "transformer_cfg \<Rightarrow> 'a::ring_1 tensor3 \<Rightarrow> 'a tensor3" where
  "encode_actives cfg support_actives_embedding =
     cat_dim2 support_actives_embedding
       (ones_like (slice_dim2_to (activity_embedding_dim cfg) support_actives_embedding))"

definition encode_inactives :: "transformer_cfg \<Rightarrow> 'a::ring_1 tensor3 \<Rightarrow> 'a tensor3" where
  "encode_inactives cfg support_inactives_embedding =
     cat_dim2 support_inactives_embedding
       (scalar_mul (- 1)
          (ones_like
             (slice_dim2_to (activity_embedding_dim cfg) support_inactives_embedding)))"

text \<open>
  The key-padding mask: a column of \<^verbatim>\<open>False\<close> for the query, one row per row of the
  mask of the actives, then the two input masks as they are.
\<close>

definition padding_mask_of :: "bool tensor2 \<Rightarrow> bool tensor2 \<Rightarrow> error + bool tensor2" where
  "padding_mask_of support_actives_mask support_inactives_mask =
     (if length support_inactives_mask \<noteq> length support_actives_mask then Inl ShapeError
      else Inr (cat_dim1 (map (\<lambda>_. [False]) support_actives_mask) support_actives_mask
                  support_inactives_mask))"

definition CrossAttentionModule_forward_inputs ::
  "transformer_cfg \<Rightarrow> 'a::ring_1 tensor3 \<Rightarrow> 'a tensor3 \<Rightarrow> 'a tensor3 \<Rightarrow>
   bool tensor2 \<Rightarrow> bool tensor2 \<Rightarrow> error + 'a tensor3 \<times> bool tensor2"
where
  "CrossAttentionModule_forward_inputs cfg query_embedding support_actives_embedding
       support_inactives_embedding support_actives_mask support_inactives_mask =
     (let q = encode_query cfg query_embedding;
          a = encode_actives cfg support_actives_embedding;
          i = encode_inactives cfg support_inactives_embedding
      in if \<not> cat_dim1_compatible q a i then Inl ShapeError
         else
           (case padding_mask_of support_actives_mask support_inactives_mask of
              Inl e \<Rightarrow> Inl e
            | Inr padding_mask \<Rightarrow> Inr (cat_dim1 q a i, padding_mask)))"

text \<open>
  The mask goes to \<^verbatim>\<open>torch.nn.TransformerEncoder\<close> as \<^verbatim>\<open>src_key_padding_mask\<close>. By
  torch's documentation a \<^verbatim>\<open>True\<close> entry of a boolean key-padding mask makes attention
  ignore that key position, a \<^verbatim>\<open>False\<close> entry leaves it attendable.
\<close>

definition key_ignored :: "bool tensor2 \<Rightarrow> nat \<Rightarrow> nat \<Rightarrow> bool" where
  "key_ignored padding_mask b j \<longleftrightarrow> padding_mask ! b ! j"

text \<open>
  The rest of \<^verbatim>\<open>CrossAttentionModule.forward\<close>. \<^verbatim>\<open>torch.nn.TransformerEncoder\<close> is the
  parameter \<open>transformer\<close>: it takes the sequence with the slot axis first and the
  key-padding mask, and returns a sequence or raises. \<open>transpose01\<close> is
  \<^verbatim>\<open>torch.transpose(t, 0, 1)\<close>. For a result of another shape than the sequence the
  addition \<^verbatim>\<open>s + s_h\<close> raises, or broadcasts an axis of size one; the model stops with
  \<open>ShapeError\<close> in both cases.

  \<open>embedding_width\<close> is \<^verbatim>\<open>support_actives_embedding.shape[2]\<close>. The lists record the
  width only where there is a vector: it is read off the first vector of the actives or,
  when the actives have no slot, of the query or the inactives, which \<^verbatim>\<open>torch.cat\<close>
  requires to be of the same width.
\<close>

definition transpose01 :: "'a tensor3 \<Rightarrow> 'a tensor3" where
  "transpose01 t = transpose t"

definition embedding_width :: "'a tensor3 \<Rightarrow> 'a tensor3 \<Rightarrow> 'a tensor3 \<Rightarrow> nat" where
  "embedding_width a q i = (case concat (a @ q @ i) of [] \<Rightarrow> 0 | v # _ \<Rightarrow> length v)"

definition CrossAttentionModule_forward ::
  "('a::ring_1 tensor3 \<Rightarrow> bool tensor2 \<Rightarrow> error + 'a tensor3) \<Rightarrow> transformer_cfg \<Rightarrow>
   'a tensor3 \<Rightarrow> 'a tensor3 \<Rightarrow> 'a tensor3 \<Rightarrow> bool tensor2 \<Rightarrow> bool tensor2 \<Rightarrow>
   error + 'a tensor3 \<times> 'a tensor3 \<times> 'a tensor3"
where
  "CrossAttentionModule_forward transformer cfg query_embedding support_actives_embedding
       support_inactives_embedding support_actives_mask support_inactives_mask =
     (let embedding_dim = embedding_width support_actives_embedding query_embedding
                            support_inactives_embedding
      in case CrossAttentionModule_forward_inputs cfg query_embedding
                support_actives_embedding support_inactives_embedding support_actives_mask
                support_inactives_mask of
           Inl e \<Rightarrow> Inl e
         | Inr (s, padding_mask) \<Rightarrow>
             (case transformer (transpose01 s) padding_mask of
                Inl e \<Rightarrow> Inl e
              | Inr s_h_t \<Rightarrow>
                  let s_h = transpose01 s_h_t
                  in if \<not> same_shape3 s_h s then Inl ShapeError
                     else
                       let s_updated = add3 s s_h
                       in if list_ex (\<lambda>r. r = []) s_updated then Inl IndexError
                          else
                            let query_out = map (\<lambda>r. [take embedding_dim (hd r)]) s_updated;
                                actives_out =
                                  map (\<lambda>r. map (take embedding_dim)
                                              (take (shape1 (encode_actives cfg
                                                       support_actives_embedding))
                                                 (drop 1 r)))
                                    s_updated;
                                inactives_out =
                                  map (\<lambda>r. map (take embedding_dim)
                                              (drop (shape1 actives_out + 1) r))
                                    s_updated
                            in Inr (query_out, actives_out, inactives_out)))"

text \<open>
  A stand-in for the transformer, for running \<open>CrossAttentionModule_forward\<close>: attention
  with equal weights, in which every position receives the sum of the vectors at the key
  positions that the mask does not ignore.
\<close>

definition equal_weight_attention ::
  "'a::comm_monoid_add tensor3 \<Rightarrow> bool tensor2 \<Rightarrow> error + 'a tensor3"
where
  "equal_weight_attention x padding_mask =
     Inr (map (\<lambda>row.
            map (\<lambda>b. foldr (map2 (+))
                        (map (\<lambda>k. x ! k ! b)
                           (filter (\<lambda>k. \<not> key_ignored padding_mask b k) [0..<length x]))
                        (replicate (length (row ! b)) 0))
              [0..<length row])
          x)"


text \<open>
  The reading of a \<open>PaddingMask\<close> entry in the data model of the specification:
  true = real molecule, false = padding.
\<close>

definition spec_marks_padding :: "bool \<Rightarrow> bool" where
  "spec_marks_padding entry \<longleftrightarrow> \<not> entry"

section \<open>Similarity module\<close>

text \<open>
  The fields of \<^verbatim>\<open>cfg.model.similarityModule\<close>.
\<close>

record similarity_cfg =
  l2Norm :: bool
  scaling :: string

text \<open>\<^verbatim>\<open>torch.tensor(1e-8).float()\<close>\<close>

definition stabilizer :: float32 where
  "stabilizer = round32 (1 / 10 ^ 8)"

text \<open>
  \<^verbatim>\<open>torch.unsqueeze(x.pow(2).sum(dim=2).sqrt(), 2)\<close>: the computed Euclidean norm of every
  vector, kept as a vector of width one.
\<close>

definition norm32 :: "float32 list \<Rightarrow> float32" where
  "norm32 v = fsqrt (fsum (map (\<lambda>e. fmul e e) v))"

definition norm_dim2 :: "float32 tensor3 \<Rightarrow> float32 tensor3" where
  "norm_dim2 x = map (map (\<lambda>v. [norm32 v])) x"

text \<open>\<^verbatim>\<open>d[d == 0] = 1\<close>\<close>

definition zero_to_one :: "float32 tensor3 \<Rightarrow> float32 tensor3" where
  "zero_to_one d = map (map (map (\<lambda>e. if e = Fin 0 then Fin 1 else e))) d"

text \<open>
  \<^verbatim>\<open>x / d\<close> for a divisor \<open>d\<close> of width one in the last axis, broadcast over the
  vector.
\<close>

definition div_dim2 :: "float32 tensor3 \<Rightarrow> float32 tensor3 \<Rightarrow> float32 tensor3" where
  "div_dim2 x d = map2 (map2 (\<lambda>v dv. map (\<lambda>e. fdiv e (hd dv)) v)) x d"

definition l2_normalize :: "float32 tensor3 \<Rightarrow> float32 tensor3" where
  "l2_normalize x = div_dim2 x (zero_to_one (norm_dim2 x))"

definition dot :: "float32 list \<Rightarrow> float32 list \<Rightarrow> float32" where
  "dot u v = fsum (map2 fmul u v)"

text \<open>
  \<^verbatim>\<open>query_embedding @ torch.transpose(support_set_embeddings, 1, 2)\<close>: in every batch
  entry, the product of the matrix of query vectors with the transposed matrix of
  support vectors. Its entry for query slot \<open>i\<close> and support slot \<open>j\<close> is the dot
  product of the two vectors.
\<close>

definition similarities_of :: "float32 tensor3 \<Rightarrow> float32 tensor3 \<Rightarrow> float32 tensor3" where
  "similarities_of q s = map2 (\<lambda>Q S. map (\<lambda>u. map (\<lambda>v. dot u v) S) Q) q s"

text \<open>\<^verbatim>\<open>(padding_mask.bool()).float().unsqueeze(1)\<close>\<close>

definition float_mask :: "bool tensor2 \<Rightarrow> float32 tensor3" where
  "float_mask padding_mask =
     map (\<lambda>r. [map (\<lambda>b. if b then Fin 1 else Fin 0) r]) padding_mask"

definition mul3 :: "float32 tensor3 \<Rightarrow> float32 tensor3 \<Rightarrow> float32 tensor3" where
  "mul3 x y = map2 (map2 (map2 fmul)) x y"

definition mul2 :: "float32 tensor2 \<Rightarrow> float32 tensor2 \<Rightarrow> float32 tensor2" where
  "mul2 x y = map2 (map2 fmul) x y"

text \<open>\<^verbatim>\<open>x.sum(dim=2)\<close>\<close>

definition sum_dim2 :: "float32 tensor3 \<Rightarrow> float32 tensor2" where
  "sum_dim2 x = map (map fsum) x"

text \<open>
  \<^verbatim>\<open>support_set_size.reshape(-1, 1)\<close>, a tensor of integer counts. In arithmetic with
  a float it is converted to float32 first.
\<close>

definition reshape_col :: "nat list \<Rightarrow> nat tensor2" where
  "reshape_col n = map (\<lambda>k. [k]) n"

definition to_float :: "nat \<Rightarrow> float32" where
  "to_float k = round32 (real k)"

text \<open>
  The shapes named in the docstring of \<^verbatim>\<open>SimilarityModule\<close>: query \<open>[B, 1, D]\<close>,
  support set \<open>[B, P, D]\<close>, mask \<open>[B, P]\<close>, sizes \<open>[B]\<close>.
\<close>

definition similarity_shapes_ok ::
  "float32 tensor3 \<Rightarrow> float32 tensor3 \<Rightarrow> bool tensor2 \<Rightarrow> nat list \<Rightarrow> bool"
where
  "similarity_shapes_ok q s m n \<longleftrightarrow>
     (let B = length q;
          D = (case concat q of [] \<Rightarrow> 0 | v # _ \<Rightarrow> length v);
          P = (case m of [] \<Rightarrow> 0 | r # _ \<Rightarrow> length r)
      in has_shape3 q B 1 D \<and> has_shape3 s B P D \<and> has_shape2 m B P \<and> length n = B)"

text \<open>
  \<^verbatim>\<open>SimilarityModule\<close>. On operands of other shapes torch raises or broadcasts; the
  model stops with \<open>ShapeError\<close> in both cases, so each result it returns belongs to
  operands of the documented shapes. The two \<^verbatim>\<open>if\<close> statements on the scaling policy
  follow each other without an \<^verbatim>\<open>else\<close>.
\<close>

definition SimilarityModule ::
  "float32 tensor3 \<Rightarrow> float32 tensor3 \<Rightarrow> bool tensor2 \<Rightarrow> nat list \<Rightarrow> similarity_cfg \<Rightarrow>
   error + float32 tensor2"
where
  "SimilarityModule query_embedding support_set_embeddings padding_mask support_set_size
       cfg =
     (if \<not> similarity_shapes_ok query_embedding support_set_embeddings padding_mask
              support_set_size
      then Inl ShapeError
      else
        let q = (if l2Norm cfg then l2_normalize query_embedding else query_embedding);
            s = (if l2Norm cfg then l2_normalize support_set_embeddings
                 else support_set_embeddings);
            similarities = similarities_of q s;
            mask = float_mask padding_mask;
            similarities = mul3 similarities mask;
            similarity_sums = sum_dim2 similarities;
            similarity_sums =
              (if scaling cfg = ''1/N'' then
                 mul2 (map (map (\<lambda>k. fdiv (Fin 1)
                                        (fadd (fmul (Fin 2) (to_float k)) stabilizer)))
                         (reshape_col support_set_size))
                   similarity_sums
               else similarity_sums);
            similarity_sums =
              (if scaling cfg = ''1/sqrt(N)'' then
                 mul2 (map (map (\<lambda>k. fdiv (Fin 1)
                                        (fadd (fmul (Fin 2) (fsqrt (to_float k)))
                                           stabilizer)))
                         (reshape_col support_set_size))
                   similarity_sums
               else similarity_sums)
        in Inr similarity_sums)"

text \<open>
  The query and support embeddings that enter the similarity computation: normalised when
  \<^verbatim>\<open>cfg.model.similarityModule.l2Norm\<close> is set, unchanged otherwise.
\<close>

definition normed :: "similarity_cfg \<Rightarrow> float32 tensor3 \<Rightarrow> float32 tensor3" where
  "normed cfg x = (if l2Norm cfg then l2_normalize x else x)"

text \<open>\<^verbatim>\<open>t.shape\<close> of a tensor of rank two.\<close>

definition shape_of2 :: "'a tensor2 \<Rightarrow> nat list" where
  "shape_of2 t = [length t, (case t of [] \<Rightarrow> 0 | r # _ \<Rightarrow> length r)]"

text \<open>
  The scaling as the specification words it, computed in float32: \<open>1/(2N + \<epsilon>)\<close> under
  the policy \<^verbatim>\<open>"1/N"\<close> and \<open>1/(2 sqrt(N) + \<epsilon>)\<close> under \<^verbatim>\<open>"1/sqrt(N)"\<close>; and the sum
  of the dot products over the slots of entry \<open>b\<close> that the mask marks as real.
\<close>

definition spec_scale :: "string \<Rightarrow> nat \<Rightarrow> float32" where
  "spec_scale policy N =
     fdiv (Fin 1)
       (fadd (fmul (Fin 2) (if policy = ''1/N'' then to_float N else fsqrt (to_float N)))
          stabilizer)"

definition spec_unmasked_sum ::
  "float32 tensor3 \<Rightarrow> float32 tensor3 \<Rightarrow> bool tensor2 \<Rightarrow> nat \<Rightarrow> float32"
where
  "spec_unmasked_sum q s m b =
     fsum (map (\<lambda>j. dot (q ! b ! 0) (s ! b ! j))
             (filter (\<lambda>j. m ! b ! j) [0..<length (s ! b)]))"

section \<open>Properties of the encoder block and the normalising block\<close>

lemma getitem_dropout_sigmoid:
  "getitem dropout_mapping ''sigmoid'' = Inl (KeyError ''sigmoid'')"
  by (simp add: getitem_def dropout_mapping_def)

text \<open>
  Claim C4. Constructing the encoder with the sigmoid activation should succeed with
  ordinary dropout as its regularisation. The activation table knows \<^verbatim>\<open>"sigmoid"\<close>, the
  dropout table does not: the first statement of the constructor raises
  \<^verbatim>\<open>KeyError\<close>, whatever the other fields of the configuration and whatever the weight
  initialisation.
\<close>

theorem EncoderBlock_init_sigmoid_KeyError:
  "EncoderBlock_init init_weights (cfg\<lparr>activation := ''sigmoid''\<rparr>) =
     Inl (KeyError ''sigmoid'')"
  by (simp add: EncoderBlock_init_def getitem_dropout_sigmoid)

text \<open>
  Claim C10. With the usage flag disabled the forward call of the normalising block
  returns its three inputs unchanged.
\<close>

theorem LayerNormalizingBlock_forward_identity:
  "\<not> usage (ln_cfg self) \<Longrightarrow>
   LayerNormalizingBlock_forward self q a i = Inr (q, a, i)"
  by (simp add: LayerNormalizingBlock_forward_def)

theorem LayerNormalizingBlock_forward_identity_witness:
  "\<not> usage (ln_cfg (LayerNormalizingBlock_init (\<lambda>d aff. map (map (map (\<lambda>x. x + 1))))
       \<lparr>usage = False, affine = True, ln_associationSpace_dim = 2\<rparr>)) \<and>
   LayerNormalizingBlock_forward
     (LayerNormalizingBlock_init (\<lambda>d aff. map (map (map (\<lambda>x. x + 1))))
       \<lparr>usage = False, affine = True, ln_associationSpace_dim = 2\<rparr>)
     [[[1, 2 :: int]]] [[[3, 4], [5, 6]]] (Some [[[7, 8]]]) =
   Inr ([[[1, 2]]], [[[3, 4], [5, 6]]], Some [[[7, 8]]])"
  using LayerNormalizingBlock_forward_identity
    [of "LayerNormalizingBlock_init (\<lambda>d aff. map (map (map (\<lambda>x. x + 1))))
           \<lparr>usage = False, affine = True, ln_associationSpace_dim = 2\<rparr>"
        "[[[1, 2 :: int]]]" "[[[3, 4], [5, 6]]]" "Some [[[7, 8]]]"]
  by (simp add: LayerNormalizingBlock_init_def)

section \<open>Shapes and rows\<close>

lemma has_shape3_nth:
  "has_shape3 t B L D \<Longrightarrow> b < B \<Longrightarrow> length (t ! b) = L"
  by (auto simp: has_shape3_def list_all_length)

lemma has_shape3_nth_nth:
  "has_shape3 t B L D \<Longrightarrow> b < B \<Longrightarrow> l < L \<Longrightarrow> length (t ! b ! l) = D"
  by (auto simp: has_shape3_def list_all_length)

lemma has_shape3_length: "has_shape3 t B L D \<Longrightarrow> length t = B"
  by (simp add: has_shape3_def)

lemma has_shape3I:
  "length t = B \<Longrightarrow> (\<And>b. b < B \<Longrightarrow> length (t ! b) = L) \<Longrightarrow>
   (\<And>b l. b < B \<Longrightarrow> l < L \<Longrightarrow> length (t ! b ! l) = D) \<Longrightarrow> has_shape3 t B L D"
  by (auto simp: has_shape3_def list_all_length)

lemma has_shape3_vectors:
  "has_shape3 t B L D \<Longrightarrow> v \<in> set (concat t) \<Longrightarrow> length v = D"
  by (auto simp: has_shape3_def list_all_iff)

lemma has_shape2_nth: "has_shape2 t B P \<Longrightarrow> b < B \<Longrightarrow> length (t ! b) = P"
  by (auto simp: has_shape2_def list_all_length)

lemma cat_dim1_nth:
  "b < length x \<Longrightarrow> length y = length x \<Longrightarrow> length z = length x \<Longrightarrow>
   cat_dim1 x y z ! b = x ! b @ y ! b @ z ! b"
  by (simp add: cat_dim1_def)

lemma length_cat_dim1:
  "length y = length x \<Longrightarrow> length z = length x \<Longrightarrow> length (cat_dim1 x y z) = length x"
  by (simp add: cat_dim1_def)

lemma cat_dim1_shape:
  assumes "has_shape3 x B Lx D" and "has_shape3 y B Ly D" and "has_shape3 z B Lz D"
  shows "has_shape3 (cat_dim1 x y z) B (Lx + Ly + Lz) D"
proof (rule has_shape3I)
  have l: "length x = B" "length y = length x" "length z = length x"
    using assms by (simp_all add: has_shape3_def)
  show "length (cat_dim1 x y z) = B"
    using l by (simp add: length_cat_dim1)
  show "length (cat_dim1 x y z ! b) = Lx + Ly + Lz" if "b < B" for b
    using that l assms by (simp add: cat_dim1_nth has_shape3_nth)
  show "length (cat_dim1 x y z ! b ! k) = D" if "b < B" and "k < Lx + Ly + Lz" for b k
    using that l has_shape3_nth [OF assms(1) that(1)] has_shape3_nth [OF assms(2) that(1)]
      has_shape3_nth [OF assms(3) that(1)]
      has_shape3_nth_nth [OF assms(1) that(1)] has_shape3_nth_nth [OF assms(2) that(1)]
      has_shape3_nth_nth [OF assms(3) that(1)]
    by (simp add: cat_dim1_nth nth_append)
qed

lemma same_width_case:
  "\<forall>v\<in>set xs. length v = D \<Longrightarrow>
   (case xs of [] \<Rightarrow> True | v # vs \<Rightarrow> list_all (\<lambda>u. length u = length v) vs)"
  by (cases xs) (auto simp: list_all_iff)

lemma cat_dim1_compatibleI:
  assumes "has_shape3 x B Lx D" and "has_shape3 y B Ly D" and "has_shape3 z B Lz D"
  shows "cat_dim1_compatible x y z"
proof -
  have all: "\<forall>v\<in>set (concat (x @ y @ z)). length v = D"
    using assms by (auto simp: has_shape3_def list_all_iff)
  show ?thesis
    unfolding cat_dim1_compatible_def
    using same_width_case [OF all] assms by (simp only: has_shape3_def)
qed

lemma length_concat_rows:
  "list_all (\<lambda>r. length r = L) s \<Longrightarrow> length (concat s) = length s * L"
  by (induction s) simp_all

lemma take_drop_concat_rows:
  "list_all (\<lambda>r. length r = L) s \<Longrightarrow> b < length s \<Longrightarrow>
   take L (drop (b * L) (concat s)) = s ! b"
proof (induction s arbitrary: b)
  case Nil
  then show ?case by simp
next
  case (Cons r s)
  show ?case
  proof (cases b)
    case 0
    with Cons.prems show ?thesis by simp
  next
    case (Suc k)
    with Cons show ?thesis by (simp add: add.commute)
  qed
qed

lemma length_chunks: "length (chunks B L xs) = B"
  by (induction B L xs rule: chunks.induct) simp_all

lemma chunks_nth: "b < B \<Longrightarrow> chunks B L xs ! b = take L (drop (b * L) xs)"
proof (induction B L xs arbitrary: b rule: chunks.induct)
  case (1 L xs)
  then show ?case by simp
next
  case (2 B L xs)
  show ?case
  proof (cases b)
    case 0
    then show ?thesis by simp
  next
    case (Suc k)
    with 2 show ?thesis by (simp add: add.commute)
  qed
qed

lemma map_length_const:
  "(\<forall>v\<in>set xs. length v = D) \<Longrightarrow> map length xs = replicate (length xs) D"
  by (induction xs) simp_all

lemma shape1_pos: "has_shape3 t B L D \<Longrightarrow> 0 < B \<Longrightarrow> shape1 t = L"
  by (cases t) (auto simp: shape1_def has_shape3_def)

section \<open>Cross-attention module: key-padding mask and activity encoding\<close>

text \<open>The mask that the forward call hands to the transformer is \<open>padding_mask_of\<close>.\<close>

lemma CrossAttentionModule_forward_inputs_mask:
  "CrossAttentionModule_forward_inputs cfg q a i am im = Inr (s, pm) \<Longrightarrow>
   padding_mask_of am im = Inr pm"
  by (auto simp: CrossAttentionModule_forward_inputs_def Let_def split: if_splits sum.splits)

text \<open>
  For input masks of shapes \<open>[B, P_a]\<close> and \<open>[B, P_i]\<close> the key-padding mask has shape
  \<open>[B, 1 + P_a + P_i]\<close>; the transformer never ignores the query position, and it
  ignores an active or inactive position exactly when the entry of the input mask at that
  slot is true.
\<close>

lemma padding_mask_of_entries:
  assumes "has_shape2 am B Pa" and "has_shape2 im B Pi"
  shows "\<exists>pm. padding_mask_of am im = Inr pm \<and> has_shape2 pm B (1 + Pa + Pi) \<and>
           (\<forall>b<B. \<not> key_ignored pm b 0 \<and>
                  (\<forall>j<Pa. key_ignored pm b (1 + j) \<longleftrightarrow> am ! b ! j) \<and>
                  (\<forall>j<Pi. key_ignored pm b (1 + Pa + j) \<longleftrightarrow> im ! b ! j))"
proof -
  from assms have la: "length am = B" and li: "length im = B"
    by (simp_all add: has_shape2_def)
  let ?pm = "cat_dim1 (map (\<lambda>_. [False]) am) am im"
  have eq: "padding_mask_of am im = Inr ?pm"
    by (simp add: padding_mask_of_def la li)
  have row: "?pm ! b = [False] @ am ! b @ im ! b" if "b < B" for b
    using that la li by (simp add: cat_dim1_nth)
  have shape: "has_shape2 ?pm B (1 + Pa + Pi)"
    using la li row assms
    by (auto simp: has_shape2_def list_all_length length_cat_dim1)
  have ent: "\<not> key_ignored ?pm b 0 \<and>
             (\<forall>j<Pa. key_ignored ?pm b (1 + j) \<longleftrightarrow> am ! b ! j) \<and>
             (\<forall>j<Pi. key_ignored ?pm b (1 + Pa + j) \<longleftrightarrow> im ! b ! j)" if "b < B" for b
    using that row [OF that] has_shape2_nth [OF assms(1) that] has_shape2_nth [OF assms(2) that]
    by (simp add: key_ignored_def nth_append)
  show ?thesis using eq shape ent by blast
qed

text \<open>
  Claim C1. The key-padding mask should mask an active or inactive position exactly where
  the input mask marks padding, and the data model reads a mask entry as true = real
  molecule, as \<^verbatim>\<open>SimilarityModule\<close> in the same file does. The forward call hands the
  input masks over unchanged, and the transformer ignores the positions that are true:
  with one real active molecule and one padded inactive slot, attention ignores the real
  molecule and attends the padded slot.
\<close>

theorem padding_mask_inverts_data_model_mask:
  "padding_mask_of [[True]] [[False]] = Inr [[False, True, False]] \<and>
   key_ignored [[False, True, False]] 0 1 \<and> \<not> spec_marks_padding ([[True]] ! 0 ! 0) \<and>
   \<not> key_ignored [[False, True, False]] 0 2 \<and> spec_marks_padding ([[False]] ! 0 ! 0)"
  by (simp add: padding_mask_of_def cat_dim1_def key_ignored_def spec_marks_padding_def)

lemma length_slice_to:
  "length (slice_to k v) =
     (if k < 0 then length v - nat (- k) else min (nat k) (length v))"
  by (simp add: slice_to_def min.commute)

lemma encode_query_nth:
  "b < length q \<Longrightarrow> l < length (q ! b) \<Longrightarrow>
   encode_query cfg q ! b ! l =
     q ! b ! l @ replicate (length (slice_to (activity_embedding_dim cfg) (q ! b ! l))) 0"
  by (simp add: encode_query_def cat_dim2_def zeros_like_def slice_dim2_to_def
      map_replicate_const)

lemma encode_actives_nth:
  "b < length a \<Longrightarrow> l < length (a ! b) \<Longrightarrow>
   encode_actives cfg a ! b ! l =
     a ! b ! l @ replicate (length (slice_to (activity_embedding_dim cfg) (a ! b ! l))) 1"
  by (simp add: encode_actives_def cat_dim2_def ones_like_def slice_dim2_to_def
      map_replicate_const)

lemma encode_inactives_nth:
  "b < length i \<Longrightarrow> l < length (i ! b) \<Longrightarrow>
   encode_inactives cfg i ! b ! l =
     i ! b ! l @ replicate (length (slice_to (activity_embedding_dim cfg) (i ! b ! l))) (- 1)"
  by (simp add: encode_inactives_def cat_dim2_def ones_like_def scalar_mul_def
      slice_dim2_to_def map_replicate_const)

lemma activity_encoding_width:
  assumes "b < length x" and "l < length (x ! b)" and "length (x ! b ! l) = D"
  shows "length (encode_query cfg x ! b ! l) =
           D + (if activity_embedding_dim cfg < 0 then D - nat (- activity_embedding_dim cfg)
                else min (nat (activity_embedding_dim cfg)) D)"
    and "length (encode_actives cfg x ! b ! l) =
           D + (if activity_embedding_dim cfg < 0 then D - nat (- activity_embedding_dim cfg)
                else min (nat (activity_embedding_dim cfg)) D)"
    and "length (encode_inactives cfg x ! b ! l) =
           D + (if activity_embedding_dim cfg < 0 then D - nat (- activity_embedding_dim cfg)
                else min (nat (activity_embedding_dim cfg)) D)"
  using assms
  by (simp_all add: encode_query_nth encode_actives_nth encode_inactives_nth length_slice_to)

text \<open>
  Claim C9. The appended activity encoding should have width \<open>activity_width\<close> for every
  configured width. The encoding is built with \<^verbatim>\<open>zeros_like\<close>/\<^verbatim>\<open>ones_like\<close> of the slice
  \<^verbatim>\<open>[:, :, :activity_embedding_dim]\<close> of the embedding itself, so its width is clipped to
  the embedding width \<open>D\<close> (\<open>activity_encoding_width\<close>). With \<open>D = 2\<close> and
  \<open>activity_embedding_dim = 3\<close> every position gets width 4, while the constructor sized
  the transformer for \<open>d_model = 5\<close>.
\<close>

theorem activity_encoding_width_clipped:
  "CrossAttentionModule_forward_inputs \<lparr>activity_embedding_dim = 3\<rparr>
     [[[1, 2 :: int]]] [[[3, 4]]] [[[5, 6]]] [[False]] [[False]] =
   Inr ([[[1, 2, 0, 0], [3, 4, 1, 1], [5, 6, - 1, - 1]]], [[False, False, False]]) \<and>
   transformer_d_model 2 \<lparr>activity_embedding_dim = 3\<rparr> = 5"
  by (simp add: CrossAttentionModule_forward_inputs_def encode_query_def encode_actives_def
      encode_inactives_def cat_dim2_def slice_dim2_to_def slice_to_def zeros_like_def
      ones_like_def scalar_mul_def cat_dim1_compatible_def padding_mask_of_def cat_dim1_def
      transformer_d_model_def)

text \<open>
  The stand-in obeys the contract of a key-padding mask: two sequences of one shape that
  agree at every key position the mask does not ignore give the same output.
\<close>

lemma equal_weight_attention_ignores_masked_keys:
  assumes len: "length x' = length x"
    and rows: "\<forall>k<length x. length (x ! k) = B \<and> length (x' ! k) = B"
    and widths: "\<forall>k<length x. \<forall>b<B. length (x' ! k ! b) = length (x ! k ! b)"
    and agree: "\<forall>k<length x. \<forall>b<B. \<not> key_ignored m b k \<longrightarrow> x' ! k ! b = x ! k ! b"
  shows "equal_weight_attention x' m = equal_weight_attention x m"
proof -
  have keys: "map (\<lambda>k. x' ! k ! b) (filter (\<lambda>k. \<not> key_ignored m b k) [0..<length x]) =
              map (\<lambda>k. x ! k ! b) (filter (\<lambda>k. \<not> key_ignored m b k) [0..<length x])"
    if "b < B" for b
    using that agree by (intro map_cong) auto
  have row: "map (\<lambda>b. foldr (map2 (+))
                          (map (\<lambda>k. x' ! k ! b)
                             (filter (\<lambda>k. \<not> key_ignored m b k) [0..<length x']))
                          (replicate (length (x' ! j ! b)) 0))
               [0..<length (x' ! j)] =
             map (\<lambda>b. foldr (map2 (+))
                          (map (\<lambda>k. x ! k ! b)
                             (filter (\<lambda>k. \<not> key_ignored m b k) [0..<length x]))
                          (replicate (length (x ! j ! b)) 0))
               [0..<length (x ! j)]"
    if j: "j < length x" for j
  proof -
    have lj: "length (x' ! j) = B" "length (x ! j) = B"
      using rows j by simp_all
    show ?thesis
      unfolding lj len
    proof (rule map_cong [OF refl])
      fix b assume "b \<in> set [0..<B]"
      then have b: "b < B" by simp
      have w: "length (x' ! j ! b) = length (x ! j ! b)"
        using widths j b by simp
      show "foldr (map2 (+))
              (map (\<lambda>k. x' ! k ! b) (filter (\<lambda>k. \<not> key_ignored m b k) [0..<length x]))
              (replicate (length (x' ! j ! b)) 0) =
            foldr (map2 (+))
              (map (\<lambda>k. x ! k ! b) (filter (\<lambda>k. \<not> key_ignored m b k) [0..<length x]))
              (replicate (length (x ! j ! b)) 0)"
        by (simp only: keys [OF b] w)
    qed
  qed
  have "map (\<lambda>r. map (\<lambda>b. foldr (map2 (+))
                          (map (\<lambda>k. x' ! k ! b)
                             (filter (\<lambda>k. \<not> key_ignored m b k) [0..<length x']))
                          (replicate (length (r ! b)) 0))
               [0..<length r]) x' =
        map (\<lambda>r. map (\<lambda>b. foldr (map2 (+))
                          (map (\<lambda>k. x ! k ! b)
                             (filter (\<lambda>k. \<not> key_ignored m b k) [0..<length x]))
                          (replicate (length (r ! b)) 0))
               [0..<length r]) x"
    using len row by (intro nth_equalityI) simp_all
  then show ?thesis
    by (simp add: equal_weight_attention_def)
qed

text \<open>
  Claim C2. Changing the content of a padded support slot should leave the outputs at the
  query and at the real support slots unchanged. With the masks of the data model (the
  active slot real, the inactive slot padding) the padded slot is the one attention does
  not ignore: two calls that differ only in the content of the padded inactive slot, 3
  against 5, return different query embeddings, 5 against 7, and different embeddings of
  the real active molecule, 6 against 8.
\<close>

theorem padded_slot_changes_outputs:
  "CrossAttentionModule_forward equal_weight_attention \<lparr>activity_embedding_dim = 1\<rparr>
     [[[1 :: int]]] [[[2]]] [[[3]]] [[True]] [[False]] = Inr ([[[5]]], [[[6]]], [[[7]]]) \<and>
   CrossAttentionModule_forward equal_weight_attention \<lparr>activity_embedding_dim = 1\<rparr>
     [[[1 :: int]]] [[[2]]] [[[5]]] [[True]] [[False]] = Inr ([[[7]]], [[[8]]], [[[11]]]) \<and>
   spec_marks_padding ([[False]] ! 0 ! 0) \<and> \<not> spec_marks_padding ([[True]] ! 0 ! 0)"
  by (simp add: CrossAttentionModule_forward_def CrossAttentionModule_forward_inputs_def
      encode_query_def encode_actives_def encode_inactives_def cat_dim2_def slice_dim2_to_def
      slice_to_def zeros_like_def ones_like_def scalar_mul_def cat_dim1_compatible_def
      padding_mask_of_def cat_dim1_def embedding_width_def transpose01_def
      equal_weight_attention_def key_ignored_def same_shape3_def add3_def shape1_def
      spec_marks_padding_def Let_def)

text \<open>
  With the two masks negated, so that true marks padding, the same two calls agree at the
  query and at the real active molecule.
\<close>

lemma negated_masks_give_invariance:
  "CrossAttentionModule_forward equal_weight_attention \<lparr>activity_embedding_dim = 1\<rparr>
     [[[1 :: int]]] [[[2]]] [[[3]]] [[False]] [[True]] = Inr ([[[4]]], [[[5]]], [[[6]]]) \<and>
   CrossAttentionModule_forward equal_weight_attention \<lparr>activity_embedding_dim = 1\<rparr>
     [[[1 :: int]]] [[[2]]] [[[5]]] [[False]] [[True]] = Inr ([[[4]]], [[[5]]], [[[8]]])"
  by (simp add: CrossAttentionModule_forward_def CrossAttentionModule_forward_inputs_def
      encode_query_def encode_actives_def encode_inactives_def cat_dim2_def slice_dim2_to_def
      slice_to_def zeros_like_def ones_like_def scalar_mul_def cat_dim1_compatible_def
      padding_mask_of_def cat_dim1_def embedding_width_def transpose01_def
      equal_weight_attention_def key_ignored_def same_shape3_def add3_def shape1_def Let_def)

section \<open>Float32 arithmetic: rounding and the laws of zero and one\<close>

lemma pow2_powr: "pow2 k = 2 powr (of_int k)"
  by (auto simp: pow2_def powr_realpow [symmetric] powr_minus divide_inverse)

lemma pow2_pos [simp]: "0 < pow2 k"
  by (simp add: pow2_powr)

lemma pow2_neq0 [simp]: "pow2 k \<noteq> 0"
  using pow2_pos [of k] by linarith

lemma pow2_nonneg [simp]: "0 \<le> pow2 k"
  using pow2_pos [of k] by linarith

lemma pow2_abs [simp]: "\<bar>pow2 k\<bar> = pow2 k"
  by simp

lemma pow2_add: "pow2 (a + b) = pow2 a * pow2 b"
  by (simp add: pow2_powr powr_add)

lemma pow2_mono: "a \<le> b \<Longrightarrow> pow2 a \<le> pow2 b"
  by (simp add: pow2_powr)

lemma pow2_strict_mono: "a < b \<Longrightarrow> pow2 a < pow2 b"
  by (simp add: pow2_powr)

lemma pow2_0 [simp]: "pow2 0 = 1"
  by (simp add: pow2_def)

lemma floor_log2_bounds:
  assumes "x \<noteq> 0"
  shows "pow2 \<lfloor>log 2 \<bar>x\<bar>\<rfloor> \<le> \<bar>x\<bar>" and "\<bar>x\<bar> < pow2 (\<lfloor>log 2 \<bar>x\<bar>\<rfloor> + 1)"
proof -
  have pos: "0 < \<bar>x\<bar>" using assms by simp
  have "of_int \<lfloor>log 2 \<bar>x\<bar>\<rfloor> \<le> log 2 \<bar>x\<bar>" by simp
  then have "2 powr of_int \<lfloor>log 2 \<bar>x\<bar>\<rfloor> \<le> 2 powr log 2 \<bar>x\<bar>"
    by simp
  then show "pow2 \<lfloor>log 2 \<bar>x\<bar>\<rfloor> \<le> \<bar>x\<bar>"
    using pos by (simp add: pow2_powr)
  have "log 2 \<bar>x\<bar> < of_int (\<lfloor>log 2 \<bar>x\<bar>\<rfloor> + 1)" by linarith
  then have "2 powr log 2 \<bar>x\<bar> < 2 powr of_int (\<lfloor>log 2 \<bar>x\<bar>\<rfloor> + 1)"
    by simp
  then show "\<bar>x\<bar> < pow2 (\<lfloor>log 2 \<bar>x\<bar>\<rfloor> + 1)"
    using pos by (simp add: pow2_powr)
qed

lemma floor_log2_eqI:
  assumes "pow2 k \<le> \<bar>x\<bar>" and "\<bar>x\<bar> < pow2 (k + 1)"
  shows "\<lfloor>log 2 \<bar>x\<bar>\<rfloor> = k"
proof -
  have pos: "0 < \<bar>x\<bar>" using assms(1) pow2_pos [of k] by linarith
  have "2 powr of_int k \<le> 2 powr log 2 \<bar>x\<bar>"
    using assms(1) pos by (simp add: pow2_powr)
  then have 1: "of_int k \<le> log 2 \<bar>x\<bar>" by simp
  have "2 powr log 2 \<bar>x\<bar> < 2 powr of_int (k + 1)"
    using assms(2) pos by (simp add: pow2_powr)
  then have 2: "log 2 \<bar>x\<bar> < of_int (k + 1)" by simp
  from 1 2 show ?thesis by linarith
qed

lemma round_half_even_of_int [simp]: "round_half_even (of_int n) = n"
  by (simp add: round_half_even_def)

lemma round_half_even_bounds:
  "of_int (round_half_even y) \<le> y + 1 / 2" "y - 1 / 2 \<le> of_int (round_half_even y)"
  by (auto simp: round_half_even_def Let_def) linarith+

lemma round_to_float32_0 [simp]: "round_to_float32 0 = 0"
  by (simp add: round_to_float32_def)

lemma pow2_nonneg_int: "0 \<le> d \<Longrightarrow> pow2 d = of_int (2 ^ nat d)"
  by (simp add: pow2_def)

lemma pow2_diff: "pow2 (a - b) = pow2 a / pow2 b"
  by (simp add: pow2_powr powr_diff)

lemma exponent32_le:
  assumes "x = of_int n * pow2 k" and "n \<noteq> 0" and "\<bar>n\<bar> < 2 ^ 24" and "- 149 \<le> k"
  shows "exponent32 x \<le> k + 23"
proof -
  have x0: "x \<noteq> 0" using assms by simp
  have "\<bar>x\<bar> = of_int \<bar>n\<bar> * pow2 k"
    using assms(1) by (simp add: abs_mult)
  also have "\<dots> < 2 ^ 24 * pow2 k"
  proof -
    have "(of_int \<bar>n\<bar> :: real) < of_int (2 ^ 24)"
      using assms(3) by (simp only: of_int_less_iff)
    then show ?thesis by simp
  qed
  also have "\<dots> = pow2 (k + 24)"
  proof -
    have "pow2 24 = 2 ^ 24" by (simp add: pow2_def)
    then show ?thesis using pow2_add [of k 24] by simp
  qed
  finally have lt: "\<bar>x\<bar> < pow2 (k + 24)" .
  have "\<lfloor>log 2 \<bar>x\<bar>\<rfloor> < k + 24"
  proof (rule ccontr)
    assume "\<not> \<lfloor>log 2 \<bar>x\<bar>\<rfloor> < k + 24"
    then have "pow2 (k + 24) \<le> pow2 \<lfloor>log 2 \<bar>x\<bar>\<rfloor>"
      by (intro pow2_mono) simp
    with floor_log2_bounds(1) [OF x0] lt show False by linarith
  qed
  with assms(4) show ?thesis by (simp add: exponent32_def)
qed

lemma round_to_float32_representable:
  assumes "representable32 x"
  shows "round_to_float32 x = x"
proof (cases "x = 0")
  case True
  then show ?thesis by simp
next
  case False
  from assms obtain n k where x: "x = of_int n * pow2 k" and n: "\<bar>n\<bar> < 2 ^ 24"
    and k: "- 149 \<le> k"
    by (auto simp: representable32_def)
  from False x have n0: "n \<noteq> 0" by auto
  let ?e = "exponent32 x"
  let ?d = "k - (?e - 23)"
  have d: "0 \<le> ?d"
    using exponent32_le [OF x n0 n k] by simp
  have "x / pow2 (?e - 23) = of_int n * pow2 ?d"
    by (simp add: x pow2_diff)
  also have "\<dots> = of_int (n * 2 ^ nat ?d)"
    using d by (simp add: pow2_nonneg_int)
  finally have q: "x / pow2 (?e - 23) = of_int (n * 2 ^ nat ?d)" .
  have "round_to_float32 x = of_int (n * 2 ^ nat ?d) * pow2 (?e - 23)"
    using False by (simp add: round_to_float32_def q del: of_int_mult of_int_power)
  also have "\<dots> = x / pow2 (?e - 23) * pow2 (?e - 23)"
    by (simp only: q)
  also have "\<dots> = x" by simp
  finally show ?thesis .
qed

lemma exponent32_upper:
  assumes "x \<noteq> 0"
  shows "\<bar>x\<bar> < pow2 (exponent32 x + 1)"
proof -
  have "\<bar>x\<bar> < pow2 (\<lfloor>log 2 \<bar>x\<bar>\<rfloor> + 1)"
    by (rule floor_log2_bounds(2) [OF assms])
  also have "\<dots> \<le> pow2 (exponent32 x + 1)"
    by (intro pow2_mono) (simp add: exponent32_def)
  finally show ?thesis .
qed

lemma exponent32_ge: "- 126 \<le> exponent32 x"
  by (simp add: exponent32_def)

lemma representable32_round: "representable32 (round_to_float32 x)"
proof (cases "x = 0")
  case True
  have "(0::real) = of_int 0 * pow2 0 \<and> \<bar>0::int\<bar> < 2 ^ 24 \<and> (- 149 :: int) \<le> 0" by simp
  then show ?thesis
    unfolding True round_to_float32_0 representable32_def by blast
next
  case False
  let ?e = "exponent32 x"
  let ?u = "pow2 (?e - 23)"
  let ?N = "round_half_even (x / ?u)"
  have r: "round_to_float32 x = of_int ?N * ?u"
    using False by (simp add: round_to_float32_def)
  have "\<bar>x\<bar> / ?u < pow2 (?e + 1) / ?u"
    using exponent32_upper [OF False] by (simp add: divide_strict_right_mono)
  also have "pow2 (?e + 1) / ?u = pow2 24"
    using pow2_diff [of "?e + 1" "?e - 23"] by simp
  also have "pow2 24 = 2 ^ 24" by (simp add: pow2_def)
  finally have lt: "\<bar>x / ?u\<bar> < 2 ^ 24" by (simp add: abs_divide)
  have "of_int ?N \<le> x / ?u + 1 / 2" "x / ?u - 1 / 2 \<le> of_int ?N"
    by (rule round_half_even_bounds)+
  with lt have "(of_int ?N :: real) < 2 ^ 24 + 1 / 2" "- (2 ^ 24) - 1 / 2 < (of_int ?N :: real)"
    by linarith+
  then have "(of_int ?N :: real) < of_int (2 ^ 24 + 1)" "of_int (- (2 ^ 24) - 1) < (of_int ?N :: real)"
    by simp_all
  then have "?N < 2 ^ 24 + 1" "- (2 ^ 24) - 1 < ?N"
    by (simp_all only: of_int_less_iff)
  then have N: "\<bar>?N\<bar> \<le> 2 ^ 24" by linarith
  have ek: "- 149 \<le> ?e - 23" using exponent32_ge [of x] by simp
  show ?thesis
  proof (cases "\<bar>?N\<bar> < 2 ^ 24")
    case True
    with r ek show ?thesis unfolding representable32_def by blast
  next
    case False
    with N have "\<bar>?N\<bar> = 2 ^ 24" by linarith
    then consider "?N = 2 ^ 24" | "?N = - (2 ^ 24)" by linarith
    then show ?thesis
    proof cases
      case 1
      have "round_to_float32 x = of_int (2 ^ 23) * pow2 (?e - 22)"
        unfolding r 1 using pow2_add [of "?e - 23" 1] by (simp add: pow2_def)
      moreover have "\<bar>2 ^ 23 :: int\<bar> < 2 ^ 24" "- 149 \<le> ?e - 22"
        using ek by simp_all
      ultimately show ?thesis unfolding representable32_def by blast
    next
      case 2
      have "round_to_float32 x = of_int (- (2 ^ 23)) * pow2 (?e - 22)"
        unfolding r 2 using pow2_add [of "?e - 23" 1] by (simp add: pow2_def)
      moreover have "\<bar>- (2 ^ 23) :: int\<bar> < 2 ^ 24" "- 149 \<le> ?e - 22"
        using ek by simp_all
      ultimately show ?thesis unfolding representable32_def by blast
    qed
  qed
qed

lemma round_to_float32_idem [simp]:
  "round_to_float32 (round_to_float32 x) = round_to_float32 x"
  by (rule round_to_float32_representable [OF representable32_round])

lemma max_float32_pos: "0 < max_float32"
  by (simp add: max_float32_def)

lemma round32_0 [simp]: "round32 0 = Fin 0"
  using max_float32_pos by (simp add: round32_def)

lemma round32_cases:
  "round32 r = PInf \<or> round32 r = NInf \<or>
   (round32 r = Fin (round_to_float32 r) \<and> \<bar>round_to_float32 r\<bar> \<le> max_float32)"
  using max_float32_pos by (auto simp: round32_def Let_def)

lemma round32_representable:
  "representable32 x \<Longrightarrow> \<bar>x\<bar> \<le> max_float32 \<Longrightarrow> round32 x = Fin x"
  by (auto simp: round32_def round_to_float32_representable)

lemma is_float32_round32 [simp]: "is_float32 (round32 r)"
proof -
  consider "round32 r = PInf" | "round32 r = NInf"
    | "round32 r = Fin (round_to_float32 r)" "\<bar>round_to_float32 r\<bar> \<le> max_float32"
    using round32_cases [of r] by blast
  then show ?thesis
  proof cases
    case 3
    have "round32 (round_to_float32 r) = Fin (round_to_float32 r)"
      by (rule round32_representable [OF representable32_round 3(2)])
    with 3(1) show ?thesis by (simp add: is_float32_def)
  qed (simp_all add: is_float32_def)
qed

lemma is_float32_simps [simp]:
  "is_float32 PInf" "is_float32 NInf" "is_float32 NaN" "is_float32 (Fin 0)"
  by (simp_all add: is_float32_def)

lemma is_float32_fadd [simp]: "is_float32 (fadd x y)"
  by (cases x; cases y) simp_all

lemma is_float32_fmul [simp]: "is_float32 (fmul x y)"
  by (cases x; cases y) simp_all

lemma is_float32_fdiv [simp]: "is_float32 (fdiv x y)"
  by (cases x; cases y) simp_all

lemma is_float32_fsqrt [simp]: "is_float32 (fsqrt x)"
  by (cases x) simp_all

lemma is_float32_fsum [simp]: "is_float32 (fsum xs)"
  by (cases xs) (simp_all add: fsum_def)

lemma fadd_zero_left: "is_float32 x \<Longrightarrow> fadd (Fin 0) x = x"
  by (cases x) (simp_all add: is_float32_def)

lemma fadd_zero_right: "is_float32 x \<Longrightarrow> fadd x (Fin 0) = x"
  by (cases x) (simp_all add: is_float32_def)

lemma fmul_one_right: "is_float32 x \<Longrightarrow> fmul x (Fin 1) = x"
  by (cases x) (simp_all add: is_float32_def)

lemma fmul_zero_right_fin [simp]: "fmul (Fin a) (Fin 0) = Fin 0"
  by simp

lemma representable32_of_int: "\<bar>n\<bar> < 2 ^ 24 \<Longrightarrow> representable32 (of_int n)"
proof -
  assume "\<bar>n\<bar> < 2 ^ 24"
  then have "(of_int n :: real) = of_int n * pow2 0 \<and> \<bar>n\<bar> < 2 ^ 24 \<and> (- 149 :: int) \<le> 0"
    by simp
  then show ?thesis unfolding representable32_def by blast
qed

lemma representable32_pow2: "- 149 \<le> k \<Longrightarrow> representable32 (pow2 k)"
proof -
  assume "- 149 \<le> k"
  then have "pow2 k = of_int 1 * pow2 k \<and> \<bar>1 :: int\<bar> < 2 ^ 24 \<and> - 149 \<le> k"
    by simp
  then show ?thesis unfolding representable32_def by blast
qed

lemma round32_of_int: "\<bar>n\<bar> < 2 ^ 24 \<Longrightarrow> round32 (of_int n) = Fin (of_int n)"
proof (rule round32_representable)
  assume n: "\<bar>n\<bar> < 2 ^ 24"
  show "representable32 (of_int n :: real)" by (rule representable32_of_int [OF n])
  have "\<bar>of_int n :: real\<bar> = of_int \<bar>n\<bar>" by simp
  also have "\<dots> \<le> of_int (2 ^ 24)" using n by (simp only: of_int_le_iff)
  also have "\<dots> \<le> max_float32" by (simp add: max_float32_def)
  finally show "\<bar>of_int n :: real\<bar> \<le> max_float32" .
qed

lemma round32_numeral [simp]:
  "(numeral w :: int) < 2 ^ 24 \<Longrightarrow> round32 (numeral w) = Fin (numeral w)"
  using round32_of_int [of "numeral w"] by simp

lemma round32_1 [simp]: "round32 1 = Fin 1"
  using round32_of_int [of 1] by simp

lemma round_to_float32_underflow:
  assumes "\<bar>x\<bar> < pow2 (- 150)"
  shows "round_to_float32 x = 0"
proof (cases "x = 0")
  case True
  then show ?thesis by simp
next
  case False
  have "\<lfloor>log 2 \<bar>x\<bar>\<rfloor> < - 126"
  proof (rule ccontr)
    assume "\<not> \<lfloor>log 2 \<bar>x\<bar>\<rfloor> < - 126"
    then have "pow2 (- 150) \<le> pow2 \<lfloor>log 2 \<bar>x\<bar>\<rfloor>"
      by (intro pow2_mono) simp
    with floor_log2_bounds(1) [OF False] assms show False by linarith
  qed
  then have e: "exponent32 x = - 126" by (simp add: exponent32_def)
  have "pow2 (- 150) = pow2 (- 149) / 2"
    using pow2_add [of "- 150" 1] by (simp add: pow2_def)
  with assms have "\<bar>x\<bar> / pow2 (- 149) < 1 / 2"
    by (simp add: field_simps)
  then have lt: "\<bar>x / pow2 (- 149)\<bar> < 1 / 2" by (simp add: abs_divide)
  have "round_half_even (x / pow2 (- 149)) = 0"
    using round_half_even_bounds [of "x / pow2 (- 149)"] lt
    by (smt (verit) of_int_0 of_int_less_iff one_le_floor of_int_le_iff le_floor_iff
        of_int_minus of_int_1 field_sum_of_halves)
  then show ?thesis
    using False by (simp add: round_to_float32_def e)
qed

lemma round_to_float32_eval:
  assumes "pow2 e \<le> \<bar>x\<bar>" and "\<bar>x\<bar> < pow2 (e + 1)" and "- 126 \<le> e"
    and "round_half_even (x / pow2 (e - 23)) = N"
  shows "round_to_float32 x = of_int N * pow2 (e - 23)"
proof -
  have "\<lfloor>log 2 \<bar>x\<bar>\<rfloor> = e" by (rule floor_log2_eqI [OF assms(1,2)])
  then have e: "exponent32 x = e" using assms(3) by (simp add: exponent32_def)
  have "0 < \<bar>x\<bar>" using assms(1) pow2_pos [of e] by linarith
  then have "x \<noteq> 0" by simp
  then show ?thesis by (simp add: round_to_float32_def e assms(4))
qed

lemma stabilizer_value: "stabilizer = Fin (11258999 / 2 ^ 50)"
proof -
  have "round_to_float32 (1 / 10 ^ 8) = of_int 11258999 * pow2 (- 27 - 23)"
    by (rule round_to_float32_eval) (simp_all add: pow2_def round_half_even_def)
  then have r: "round_to_float32 (1 / 10 ^ 8) = 11258999 / 2 ^ 50"
    by (simp add: pow2_def)
  show ?thesis
    unfolding stabilizer_def round32_def Let_def r by (simp add: max_float32_def)
qed

lemma round32_inverse_stabilizer: "round32 (1 / (11258999 / 2 ^ 50)) = Fin 100000000"
proof -
  have "round_to_float32 (1 / (11258999 / 2 ^ 50)) = of_int 12500000 * pow2 (26 - 23)"
    by (rule round_to_float32_eval) (simp_all add: pow2_def round_half_even_def)
  then have r: "round_to_float32 (1 / (11258999 / 2 ^ 50)) = 100000000"
    by (simp add: pow2_def)
  show ?thesis
    unfolding round32_def Let_def r by (simp add: max_float32_def)
qed

lemma round32_pow2:
  "- 149 \<le> k \<Longrightarrow> k \<le> 127 \<Longrightarrow> round32 (pow2 k) = Fin (pow2 k)"
proof (rule round32_representable)
  assume k: "- 149 \<le> k" "k \<le> 127"
  show "representable32 (pow2 k)" by (rule representable32_pow2 [OF k(1)])
  have "pow2 k \<le> pow2 127" by (rule pow2_mono [OF k(2)])
  also have "\<dots> \<le> max_float32" by (simp add: pow2_def max_float32_def)
  finally show "\<bar>pow2 k\<bar> \<le> max_float32" by simp
qed

lemma round32_overflow_pow2: "127 < k \<Longrightarrow> round32 (pow2 k) = PInf"
proof -
  assume k: "127 < k"
  then have "- 149 \<le> k" by simp
  then have r: "round_to_float32 (pow2 k) = pow2 k"
    by (intro round_to_float32_representable representable32_pow2)
  have "max_float32 < pow2 128" by (simp add: pow2_def max_float32_def)
  also have "pow2 128 \<le> pow2 k" using k by (intro pow2_mono) simp
  finally show ?thesis by (simp add: round32_def r)
qed

lemma round32_underflow: "\<bar>x\<bar> < pow2 (- 150) \<Longrightarrow> round32 x = Fin 0"
  using max_float32_pos by (simp add: round32_def round_to_float32_underflow)

lemma fmul_NaN_right [simp]: "fmul x NaN = NaN"
  by (cases x) simp_all

lemma fadd_NaN_right [simp]: "fadd x NaN = NaN"
  by (cases x) simp_all

lemma round32_half: "round32 (1 / 2) = Fin (1 / 2)"
  using round32_pow2 [of "- 1"] by (simp add: pow2_def)

lemma round32_two_plus_stabilizer: "round32 (2 + 11258999 / 2 ^ 50) = Fin 2"
proof -
  have "round_to_float32 (2 + 11258999 / 2 ^ 50) = of_int 8388608 * pow2 (1 - 23)"
    by (rule round_to_float32_eval) (simp_all add: pow2_def round_half_even_def)
  then have r: "round_to_float32 (2 + 11258999 / 2 ^ 50) = 2"
    by (simp add: pow2_def)
  show ?thesis
    unfolding round32_def Let_def r by (simp add: max_float32_def)
qed

section \<open>Similarity module\<close>

lemma similarity_shapes_okI:
  assumes q: "has_shape3 q B 1 D" and s: "has_shape3 s B P D"
    and m: "has_shape2 m B P" and n: "length n = B"
  shows "similarity_shapes_ok q s m n"
proof (cases B)
  case 0
  with assms show ?thesis
    by (simp add: similarity_shapes_ok_def has_shape3_def has_shape2_def)
next
  case (Suc k)
  from q Suc obtain r qs where q_eq: "q = r # qs"
    by (cases q) (auto simp: has_shape3_def)
  from q q_eq obtain v where r_eq: "r = [v]" and v: "length v = D"
    by (cases r) (auto simp: has_shape3_def)
  from m Suc obtain mr ms where m_eq: "m = mr # ms"
    by (cases m) (auto simp: has_shape2_def)
  from m m_eq have mr: "length mr = P"
    by (simp add: has_shape2_def)
  have lq: "length q = B" using q by (simp add: has_shape3_def)
  show ?thesis
    unfolding similarity_shapes_ok_def Let_def
    using q s m n lq by (simp add: q_eq r_eq v m_eq mr)
qed

lemma l2_normalize_length: "length (l2_normalize x) = length x"
  by (simp add: l2_normalize_def div_dim2_def zero_to_one_def norm_dim2_def)

lemma l2_normalize_nth_length:
  "b < length x \<Longrightarrow> length (l2_normalize x ! b) = length (x ! b)"
  by (simp add: l2_normalize_def div_dim2_def zero_to_one_def norm_dim2_def)

lemma l2_divisor_nth:
  "b < length x \<Longrightarrow> l < length (x ! b) \<Longrightarrow>
   zero_to_one (norm_dim2 x) ! b ! l =
     [if norm32 (x ! b ! l) = Fin 0 then Fin 1 else norm32 (x ! b ! l)]"
  by (simp add: zero_to_one_def norm_dim2_def)

lemma l2_normalize_nth:
  "b < length x \<Longrightarrow> l < length (x ! b) \<Longrightarrow>
   l2_normalize x ! b ! l =
     map (\<lambda>e. fdiv e (if norm32 (x ! b ! l) = Fin 0 then Fin 1 else norm32 (x ! b ! l)))
       (x ! b ! l)"
  by (simp add: l2_normalize_def div_dim2_def zero_to_one_def norm_dim2_def)

lemma l2_normalize_lengths: "map (map length) (l2_normalize x) = map (map length) x"
proof (rule nth_equalityI)
  show "length (map (map length) (l2_normalize x)) = length (map (map length) x)"
    by (simp add: l2_normalize_length)
  fix b assume "b < length (map (map length) (l2_normalize x))"
  then have b: "b < length x" by (simp add: l2_normalize_length)
  have "map length (l2_normalize x ! b) = map length (x ! b)"
    using b by (intro nth_equalityI) (simp_all add: l2_normalize_nth_length l2_normalize_nth)
  then show "map (map length) (l2_normalize x) ! b = map (map length) x ! b"
    using b by (simp add: l2_normalize_length)
qed

lemma has_shape3_lengths:
  "has_shape3 x B L D \<longleftrightarrow>
     length (map (map length) x) = B \<and>
     list_all (\<lambda>r. length r = L \<and> list_all (\<lambda>k. k = D) r) (map (map length) x)"
  by (simp add: has_shape3_def list_all_iff)

lemma l2_normalize_shape_iff:
  "has_shape3 (l2_normalize x) B L D \<longleftrightarrow> has_shape3 x B L D"
  by (simp only: has_shape3_lengths l2_normalize_lengths)

lemma l2_normalize_shape:
  "has_shape3 x B L D \<Longrightarrow> has_shape3 (l2_normalize x) B L D"
  by (simp add: l2_normalize_shape_iff)

lemma first_width_lengths:
  "(case concat x of [] \<Rightarrow> 0 | v # _ \<Rightarrow> length v) =
   (case concat (map (map length) x) of [] \<Rightarrow> 0 | k # _ \<Rightarrow> k)"
proof -
  have c: "concat (map (map length) x) = map length (concat x)"
    by (simp add: map_concat)
  have "(case xs of [] \<Rightarrow> 0 | v # _ \<Rightarrow> length v) =
        (case map length xs of [] \<Rightarrow> 0 | k # _ \<Rightarrow> k)" for xs :: "'a list list"
    by (cases xs) simp_all
  then show ?thesis by (simp only: c)
qed

lemma l2_normalize_shapes_ok:
  "similarity_shapes_ok (l2_normalize q) (l2_normalize s) m n = similarity_shapes_ok q s m n"
  unfolding similarity_shapes_ok_def Let_def
  by (simp only: l2_normalize_shape_iff l2_normalize_length first_width_lengths
      l2_normalize_lengths)

lemma normed_shape: "has_shape3 x B L D \<Longrightarrow> has_shape3 (normed cfg x) B L D"
  by (simp add: normed_def l2_normalize_shape)

lemma fsum_Nil [simp]: "fsum [] = Fin 0"
  by (simp add: fsum_def)

lemma fsum_Cons [simp]: "fsum (x # xs) = fadd x (fsum xs)"
  by (simp add: fsum_def)

lemma is_float32_dot [simp]: "is_float32 (dot u v)"
  by (simp add: dot_def)

lemma is_finite32_Fin: "is_finite32 x \<Longrightarrow> \<exists>a. x = Fin a"
  by (cases x) (simp_all add: is_finite32_def)

lemma masked_sum_zip:
  assumes "length S = length M"
    and "\<forall>(x, b)\<in>set (zip S M). is_float32 (f x) \<and> (\<not> b \<longrightarrow> is_finite32 (f x))"
  shows "fsum (map2 fmul (map f S) (map (\<lambda>b. if b then Fin 1 else Fin 0) M)) =
         fsum (map (\<lambda>p. f (fst p)) (filter snd (zip S M)))"
  using assms
proof (induction S M rule: list_induct2)
  case Nil
  show ?case by simp
next
  case (Cons x S b M)
  then have IH: "fsum (map2 fmul (map f S) (map (\<lambda>b. if b then Fin 1 else Fin 0) M)) =
                 fsum (map (\<lambda>p. f (fst p)) (filter snd (zip S M)))"
    by simp
  from Cons.prems have fl: "is_float32 (f x)" and fin: "\<not> b \<Longrightarrow> is_finite32 (f x)"
    by simp_all
  show ?case
  proof (cases b)
    case True
    then show ?thesis using IH fl by (simp add: fmul_one_right)
  next
    case False
    from fin [OF False] obtain a where "f x = Fin a"
      using is_finite32_Fin by blast
    then show ?thesis using False IH by (simp add: fadd_zero_left)
  qed
qed

lemma zip_filter_index:
  assumes "length S = length M"
  shows "map (\<lambda>p. f (fst p)) (filter snd (zip S M)) =
         map (\<lambda>j. f (S ! j)) (filter (\<lambda>j. M ! j) [0..<length S])"
proof -
  have z: "zip S M = map (\<lambda>j. (S ! j, M ! j)) [0..<length S]"
    using assms by (intro nth_equalityI) simp_all
  show ?thesis
    by (subst z) (simp add: filter_map comp_def)
qed

lemma masked_sum_filter:
  assumes len: "length S = length M"
    and fl: "\<forall>j<length S. is_float32 (f (S ! j))"
    and fin: "\<forall>j<length S. \<not> M ! j \<longrightarrow> is_finite32 (f (S ! j))"
  shows "fsum (map2 fmul (map f S) (map (\<lambda>b. if b then Fin 1 else Fin 0) M)) =
         fsum (map (\<lambda>j. f (S ! j)) (filter (\<lambda>j. M ! j) [0..<length S]))"
proof -
  have "\<forall>(x, b)\<in>set (zip S M). is_float32 (f x) \<and> (\<not> b \<longrightarrow> is_finite32 (f x))"
    using len fl fin by (auto simp: in_set_zip)
  from masked_sum_zip [OF len this] show ?thesis
    by (simp only: zip_filter_index [OF len])
qed

lemma masked_sums_row:
  assumes q: "has_shape3 q B 1 D" and s: "has_shape3 s B P D"
    and m: "has_shape2 m B P" and b: "b < B"
  shows "sum_dim2 (mul3 (similarities_of q s) (float_mask m)) ! b =
           [fsum (map2 fmul (map (dot (q ! b ! 0)) (s ! b))
                    (map (\<lambda>b. if b then Fin 1 else Fin 0) (m ! b)))]"
proof -
  have lq: "length q = B" and ls: "length s = B" and lm: "length m = B"
    using q s m by (simp_all add: has_shape3_def has_shape2_def)
  obtain u where qb: "q ! b = [u]"
    using has_shape3_nth [OF q b] by (cases "q ! b") auto
  show ?thesis
    using b lq ls lm by (simp add: sum_dim2_def mul3_def similarities_of_def float_mask_def qb)
qed

lemma masked_sums_nth:
  assumes q: "has_shape3 q B 1 D" and s: "has_shape3 s B P D"
    and m: "has_shape2 m B P" and b: "b < B"
    and fin: "\<forall>j<P. \<not> m ! b ! j \<longrightarrow> is_finite32 (dot (q ! b ! 0) (s ! b ! j))"
  shows "sum_dim2 (mul3 (similarities_of q s) (float_mask m)) ! b =
           [spec_unmasked_sum q s m b]"
proof -
  have len: "length (s ! b) = length (m ! b)" and lsb: "length (s ! b) = P"
    using has_shape3_nth [OF s b] has_shape2_nth [OF m b] by simp_all
  have "fsum (map2 fmul (map (dot (q ! b ! 0)) (s ! b))
                (map (\<lambda>b. if b then Fin 1 else Fin 0) (m ! b))) =
        spec_unmasked_sum q s m b"
    unfolding spec_unmasked_sum_def
    by (rule masked_sum_filter [OF len]) (use fin lsb in simp_all)
  then show ?thesis
    by (simp add: masked_sums_row [OF q s m b])
qed

lemma masked_sums_length:
  assumes q: "has_shape3 q B 1 D" and s: "has_shape3 s B P D" and m: "has_shape2 m B P"
  shows "length (sum_dim2 (mul3 (similarities_of q s) (float_mask m))) = B"
  using assms
  by (simp add: sum_dim2_def mul3_def similarities_of_def float_mask_def has_shape3_def
      has_shape2_def)

lemma scale_nth:
  assumes "length n = B" and "length xs = B" and "b < B" and "xs ! b = [x]"
  shows "mul2 (map (map f) (reshape_col n)) xs ! b = [fmul (f (n ! b)) x]"
  using assms by (simp add: mul2_def reshape_col_def)

lemma scale_length:
  "length n = B \<Longrightarrow> length xs = B \<Longrightarrow> length (mul2 (map (map f) (reshape_col n)) xs) = B"
  by (simp add: mul2_def reshape_col_def)

lemma SimilarityModule_unfold:
  assumes "similarity_shapes_ok q s m n"
  shows "SimilarityModule q s m n cfg =
     Inr (let ssum = sum_dim2 (mul3 (similarities_of (normed cfg q) (normed cfg s)) (float_mask m))
          in if scaling cfg = ''1/N''
             then mul2 (map (map (\<lambda>k. fdiv (Fin 1) (fadd (fmul (Fin 2) (to_float k)) stabilizer)))
                          (reshape_col n)) ssum
             else if scaling cfg = ''1/sqrt(N)''
             then mul2 (map (map (\<lambda>k. fdiv (Fin 1)
                                         (fadd (fmul (Fin 2) (fsqrt (to_float k))) stabilizer)))
                          (reshape_col n)) ssum
             else ssum)"
  using assms by (simp add: SimilarityModule_def normed_def Let_def)

lemma unmasked_sum_all_padding:
  "\<forall>j<length (s ! b). \<not> m ! b ! j \<Longrightarrow> spec_unmasked_sum q s m b = Fin 0"
proof -
  assume "\<forall>j<length (s ! b). \<not> m ! b ! j"
  then have "filter (\<lambda>j. m ! b ! j) [0..<length (s ! b)] = []"
    by (simp add: filter_empty_conv)
  then show ?thesis by (simp add: spec_unmasked_sum_def)
qed

lemma round32_stabilizer: "round32 (11258999 / 2 ^ 50) = Fin (11258999 / 2 ^ 50)"
  using is_float32_round32 [of "1 / 10 ^ 8"] stabilizer_value
  by (simp add: stabilizer_def is_float32_def)

lemma spec_scale_0: "spec_scale policy 0 = Fin 100000000"
  using round32_stabilizer round32_inverse_stabilizer
  by (simp add: spec_scale_def to_float_def stabilizer_value)

lemma dot_Nil [simp]: "dot [] v = Fin 0"
  by (simp add: dot_def)

lemma dot_Cons: "dot (a # u) (b # v) = fadd (fmul a b) (dot u v)"
  by (simp add: dot_def)

lemma l2_normalize_eq:
  "l2_normalize x =
     map (map (\<lambda>v. map (\<lambda>e. fdiv e (if norm32 v = Fin 0 then Fin 1 else norm32 v)) v)) x"
proof (rule nth_equalityI)
  show "length (l2_normalize x) =
          length (map (map (\<lambda>v. map (\<lambda>e. fdiv e (if norm32 v = Fin 0 then Fin 1
                                                   else norm32 v)) v)) x)"
    by (simp add: l2_normalize_length)
  fix b assume "b < length (l2_normalize x)"
  then have b: "b < length x" by (simp add: l2_normalize_length)
  show "l2_normalize x ! b =
          map (map (\<lambda>v. map (\<lambda>e. fdiv e (if norm32 v = Fin 0 then Fin 1
                                            else norm32 v)) v)) x ! b"
    using b by (intro nth_equalityI) (simp_all add: l2_normalize_nth_length l2_normalize_nth)
qed

lemma spec_scale_1N_1: "spec_scale ''1/N'' 1 = Fin (1 / 2)"
  using round32_two_plus_stabilizer round32_half
  by (simp add: spec_scale_def to_float_def stabilizer_value)

lemma upt_2: "[0..<2] = [0, 1]"
  by (simp add: numeral_2_eq_2)

text \<open>
  Claim C6, as amended. For inputs of the documented shapes and either scaling policy, if
  the similarity values at the padded slots of batch entry \<open>b\<close> are finite, the score of
  that entry is the float32 sum of the dot products at the slots the mask marks as real,
  multiplied by the float32 value of \<open>1/(2N + \<epsilon>)\<close> or \<open>1/(2 sqrt(N) + \<epsilon>)\<close>; and when
  \<open>N = 0\<close> and the mask marks every slot as padding, the score is exactly 0.
\<close>

theorem SimilarityModule_scaled_sum:
  assumes q: "has_shape3 q B 1 D" and s: "has_shape3 s B P D"
    and m: "has_shape2 m B P" and n: "length n = B"
    and pol: "scaling cfg = ''1/N'' \<or> scaling cfg = ''1/sqrt(N)''"
    and b: "b < B"
    and fin: "\<forall>j<P. \<not> m ! b ! j \<longrightarrow>
                is_finite32 (dot (normed cfg q ! b ! 0) (normed cfg s ! b ! j))"
  shows "\<exists>out. SimilarityModule q s m n cfg = Inr out \<and>
           out ! b = [fmul (spec_scale (scaling cfg) (n ! b))
                        (spec_unmasked_sum (normed cfg q) (normed cfg s) m b)] \<and>
           (n ! b = 0 \<and> (\<forall>j<P. \<not> m ! b ! j) \<longrightarrow> out ! b = [Fin 0])"
proof -
  let ?q = "normed cfg q" and ?s = "normed cfg s"
  let ?ssum = "sum_dim2 (mul3 (similarities_of ?q ?s) (float_mask m))"
  have q': "has_shape3 ?q B 1 D" and s': "has_shape3 ?s B P D"
    using q s by (simp_all add: normed_shape)
  have ok: "similarity_shapes_ok q s m n"
    by (rule similarity_shapes_okI [OF q s m n])
  have ssum_b: "?ssum ! b = [spec_unmasked_sum ?q ?s m b]"
    by (rule masked_sums_nth [OF q' s' m b fin])
  have ssum_len: "length ?ssum = B"
    by (rule masked_sums_length [OF q' s' m])
  obtain out where out: "SimilarityModule q s m n cfg = Inr out"
    and out_b: "out ! b = [fmul (spec_scale (scaling cfg) (n ! b))
                             (spec_unmasked_sum ?q ?s m b)]"
    using pol scale_nth [OF n ssum_len b ssum_b]
    by (auto simp: SimilarityModule_unfold [OF ok] Let_def spec_scale_def)
  have len_sb: "length (?s ! b) = P"
    by (rule has_shape3_nth [OF s' b])
  have zero: "out ! b = [Fin 0]" if "n ! b = 0" and "\<forall>j<P. \<not> m ! b ! j"
    using that out_b unmasked_sum_all_padding [of ?s b m ?q] len_sb
    by (simp add: spec_scale_0)
  show ?thesis
    by (rule exI [of _ out]) (use out out_b zero in auto)
qed

theorem SimilarityModule_scaled_sum_witness:
  "has_shape3 [[[Fin 1, Fin 2]], [[Fin 4, Fin 3]]] 2 1 2 \<and>
   has_shape3 [[[Fin 5, Fin 6], [Fin 7, Fin 8]], [[Fin 1, Fin 0], [Fin 0, Fin 1]]] 2 2 2 \<and>
   has_shape2 [[False, False], [True, False]] 2 2 \<and> length [0, 1 :: nat] = 2 \<and>
   (\<exists>out. SimilarityModule [[[Fin 1, Fin 2]], [[Fin 4, Fin 3]]]
             [[[Fin 5, Fin 6], [Fin 7, Fin 8]], [[Fin 1, Fin 0], [Fin 0, Fin 1]]]
             [[False, False], [True, False]] [0, 1] \<lparr>l2Norm = False, scaling = ''1/N''\<rparr> =
           Inr out \<and>
      out ! 0 = [Fin 0] \<and> out ! 1 = [Fin 2])"
proof -
  let ?q = "[[[Fin 1, Fin 2]], [[Fin 4, Fin 3]]]"
  let ?s = "[[[Fin 5, Fin 6], [Fin 7, Fin 8]], [[Fin 1, Fin 0], [Fin 0, Fin 1]]]"
  let ?m = "[[False, False], [True, False]]"
  let ?n = "[0, 1 :: nat]"
  let ?cfg = "\<lparr>l2Norm = False, scaling = ''1/N''\<rparr>"
  have q: "has_shape3 ?q 2 1 2" and s: "has_shape3 ?s 2 2 2"
    by (simp_all add: has_shape3_def)
  have m: "has_shape2 ?m 2 2" and n: "length ?n = 2"
    by (simp_all add: has_shape2_def)
  have pol: "scaling ?cfg = ''1/N'' \<or> scaling ?cfg = ''1/sqrt(N)''" by simp
  have b0: "(0::nat) < 2" and b1: "(1::nat) < 2" by simp_all
  have fin0: "\<forall>j<2. \<not> ?m ! 0 ! j \<longrightarrow>
                is_finite32 (dot (normed ?cfg ?q ! 0 ! 0) (normed ?cfg ?s ! 0 ! j))"
    by (simp add: normed_def dot_Cons is_finite32_def less_Suc_eq numeral_2_eq_2)
  have fin1: "\<forall>j<2. \<not> ?m ! 1 ! j \<longrightarrow>
                is_finite32 (dot (normed ?cfg ?q ! 1 ! 0) (normed ?cfg ?s ! 1 ! j))"
    by (simp add: normed_def dot_Cons is_finite32_def less_Suc_eq numeral_2_eq_2)
  from SimilarityModule_scaled_sum [OF q s m n pol b0 fin0]
  obtain out where out: "SimilarityModule ?q ?s ?m ?n ?cfg = Inr out"
    and z: "?n ! 0 = 0 \<and> (\<forall>j<2. \<not> ?m ! 0 ! j) \<longrightarrow> out ! 0 = [Fin 0]"
    by blast
  from SimilarityModule_scaled_sum [OF q s m n pol b1 fin1]
  obtain out' where out': "SimilarityModule ?q ?s ?m ?n ?cfg = Inr out'"
    and o1: "out' ! 1 = [fmul (spec_scale (scaling ?cfg) (?n ! 1))
                           (spec_unmasked_sum (normed ?cfg ?q) (normed ?cfg ?s) ?m 1)]"
    by blast
  have same: "out' = out" using out out' by simp
  have e0: "out ! 0 = [Fin 0]"
    using z by (simp add: less_Suc_eq numeral_2_eq_2)
  have us: "spec_unmasked_sum (normed ?cfg ?q) (normed ?cfg ?s) ?m 1 = Fin 4"
    by (simp add: spec_unmasked_sum_def normed_def upt_2 dot_Cons)
  have e1: "out ! 1 = [Fin 2]"
    using o1 spec_scale_1N_1 unfolding same us by simp
  show ?thesis
    using q s m n out e0 e1 by blast
qed

text \<open>
  Claim C6 as stated fails: the mask is applied by multiplication, and an infinite
  similarity times 0 is NaN. With \<open>N = 0\<close>, every slot padding, and a padded embedding
  whose dot product with the query overflows, the score is NaN, not 0.
\<close>

theorem SimilarityModule_all_padding_counterexample:
  "SimilarityModule [[[Fin (2 ^ 70), Fin 0]]] [[[Fin (2 ^ 70), Fin 0]]] [[False]] [0]
     \<lparr>l2Norm = False, scaling = ''1/N''\<rparr> = Inr [[NaN]]"
proof -
  have ov: "fmul (Fin (2 ^ 70)) (Fin (2 ^ 70)) = PInf"
    using round32_overflow_pow2 [of 140] by (simp add: pow2_def)
  have d: "dot [Fin (2 ^ 70), Fin 0] [Fin (2 ^ 70), Fin 0] = PInf"
    by (simp only: dot_Cons dot_Nil ov) simp
  have ok: "similarity_shapes_ok [[[Fin (2 ^ 70), Fin 0]]] [[[Fin (2 ^ 70), Fin 0]]] [[False]] [0]"
    by (simp add: similarity_shapes_ok_def has_shape3_def has_shape2_def)
  show ?thesis
    unfolding SimilarityModule_unfold [OF ok]
    by (simp add: normed_def similarities_of_def d float_mask_def mul3_def sum_dim2_def
        mul2_def reshape_col_def Let_def del: power_numeral)
qed

text \<open>
  Claim C7, as amended. For inputs of the documented shapes with batch size \<open>B\<close> the
  similarity scorer returns a tensor of shape \<open>[B, 1]\<close>: one scalar per batch entry, the
  query axis of size one kept.
\<close>

theorem SimilarityModule_shape:
  assumes q: "has_shape3 q B 1 D" and s: "has_shape3 s B P D"
    and m: "has_shape2 m B P" and n: "length n = B"
  shows "\<exists>out. SimilarityModule q s m n cfg = Inr out \<and> has_shape2 out B 1 \<and>
           (0 < B \<longrightarrow> shape_of2 out = [B, 1])"
proof -
  let ?q = "normed cfg q" and ?s = "normed cfg s"
  let ?ssum = "sum_dim2 (mul3 (similarities_of ?q ?s) (float_mask m))"
  have q': "has_shape3 ?q B 1 D" and s': "has_shape3 ?s B P D"
    using q s by (simp_all add: normed_shape)
  have ok: "similarity_shapes_ok q s m n"
    by (rule similarity_shapes_okI [OF q s m n])
  have ssum_len: "length ?ssum = B"
    by (rule masked_sums_length [OF q' s' m])
  have ssum_b: "length (?ssum ! b) = 1" if "b < B" for b
    using masked_sums_row [OF q' s' m that] by simp
  have sc: "length (mul2 (map (map f) (reshape_col n)) ?ssum ! b) = 1" if "b < B" for b f
    using scale_nth [OF n ssum_len that, of _ f] masked_sums_row [OF q' s' m that] by simp
  obtain out where out: "SimilarityModule q s m n cfg = Inr out"
    and len: "length out = B" and row: "\<forall>b<B. length (out ! b) = 1"
    using ssum_len ssum_b sc scale_length [OF n ssum_len]
    by (auto simp: SimilarityModule_unfold [OF ok] Let_def)
  have sh: "has_shape2 out B 1"
    using len row by (simp add: has_shape2_def list_all_length)
  have "shape_of2 out = [B, 1]" if "0 < B"
  proof -
    from that len obtain r rs where "out = r # rs" by (cases out) auto
    with row len that show ?thesis by (auto simp: shape_of2_def)
  qed
  with out sh show ?thesis by blast
qed

theorem SimilarityModule_shape_witness:
  "has_shape3 [[[Fin 1, Fin 2]], [[Fin 3, Fin 4]]] 2 1 2 \<and>
   has_shape3 [[[Fin 5, Fin 6], [Fin 7, Fin 8]], [[Fin 1, Fin 0], [Fin 0, Fin 1]]] 2 2 2 \<and>
   has_shape2 [[True, True], [True, False]] 2 2 \<and> length [2, 1 :: nat] = 2 \<and>
   (\<exists>out. SimilarityModule [[[Fin 1, Fin 2]], [[Fin 3, Fin 4]]]
             [[[Fin 5, Fin 6], [Fin 7, Fin 8]], [[Fin 1, Fin 0], [Fin 0, Fin 1]]]
             [[True, True], [True, False]] [2, 1]
             \<lparr>l2Norm = True, scaling = ''1/sqrt(N)''\<rparr> =
           Inr out \<and> has_shape2 out 2 1 \<and> shape_of2 out = [2, 1])"
  using SimilarityModule_shape
      [of "[[[Fin 1, Fin 2]], [[Fin 3, Fin 4]]]" 2 2
          "[[[Fin 5, Fin 6], [Fin 7, Fin 8]], [[Fin 1, Fin 0], [Fin 0, Fin 1]]]" 2
          "[[True, True], [True, False]]" "[2, 1]"
          "\<lparr>l2Norm = True, scaling = ''1/sqrt(N)''\<rparr>"]
  by (simp add: has_shape3_def has_shape2_def)

text \<open>
  Claim C7 as stated fails: under the policy \<^verbatim>\<open>"1/N"\<close> the result for batch size 2 has
  shape \<open>[2, 1]\<close>, not \<open>[2]\<close>.
\<close>

theorem SimilarityModule_shape_counterexample:
  "SimilarityModule [[[Fin 1]], [[Fin 1]]] [[[Fin 2]], [[Fin 4]]] [[True], [True]] [1, 1]
     \<lparr>l2Norm = False, scaling = ''1/N''\<rparr> = Inr [[Fin 1], [Fin 2]] \<and>
   shape_of2 [[Fin 1], [Fin 2]] = [2, 1] \<and> shape_of2 [[Fin 1], [Fin 2]] \<noteq> [2]"
proof -
  have ok: "similarity_shapes_ok [[[Fin 1]], [[Fin 1]]] [[[Fin 2]], [[Fin 4]]]
              [[True], [True]] [1, 1]"
    by (simp add: similarity_shapes_ok_def has_shape3_def has_shape2_def)
  have sc: "fdiv (Fin 1) (fadd (fmul (Fin 2) (to_float (Suc 0))) stabilizer) = Fin (1 / 2)"
    using spec_scale_1N_1 by (simp add: spec_scale_def)
  have "SimilarityModule [[[Fin 1]], [[Fin 1]]] [[[Fin 2]], [[Fin 4]]] [[True], [True]] [1, 1]
          \<lparr>l2Norm = False, scaling = ''1/N''\<rparr> = Inr [[Fin 1], [Fin 2]]"
    unfolding SimilarityModule_unfold [OF ok]
    by (simp add: normed_def similarities_of_def dot_Cons float_mask_def mul3_def sum_dim2_def
        mul2_def reshape_col_def Let_def sc)
  then show ?thesis by (simp add: shape_of2_def)
qed

text \<open>
  Claim C3, as amended. An activation name outside \<open>{relu, selu, sigmoid}\<close> makes the
  constructor of the encoder fail with a lookup error. An unknown scaling policy causes no
  failure: on inputs of the documented shapes the similarity scorer skips both scaling
  branches and returns the masked similarity sums unscaled.
\<close>

theorem unknown_activation_and_scaling:
  "(activation ecfg \<notin> {''relu'', ''selu'', ''sigmoid''} \<longrightarrow>
      EncoderBlock_init init_weights ecfg = Inl (KeyError (activation ecfg))) \<and>
   (scaling cfg \<notin> {''1/N'', ''1/sqrt(N)''} \<and> similarity_shapes_ok q s m n \<longrightarrow>
      SimilarityModule q s m n cfg =
        Inr (sum_dim2 (mul3 (similarities_of (normed cfg q) (normed cfg s)) (float_mask m))))"
  by (auto simp: SimilarityModule_unfold EncoderBlock_init_def getitem_def dropout_mapping_def)

theorem unknown_activation_and_scaling_witness:
  "activation \<lparr>activation = ''tanh'', input_dim = 4, number_hidden_neurons = 3,
      number_hidden_layers = 1, input_dropout = 0, regularization_dropout = 0,
      associationSpace_dim = 2\<rparr> \<notin> {''relu'', ''selu'', ''sigmoid''} \<and>
   EncoderBlock_init (\<lambda>name blk. Inr blk)
     \<lparr>activation = ''tanh'', input_dim = 4, number_hidden_neurons = 3,
      number_hidden_layers = 1, input_dropout = 0, regularization_dropout = 0,
      associationSpace_dim = 2\<rparr> = Inl (KeyError ''tanh'') \<and>
   scaling \<lparr>l2Norm = False, scaling = ''1/N^2''\<rparr> \<notin> {''1/N'', ''1/sqrt(N)''} \<and>
   similarity_shapes_ok [[[Fin 1, Fin 2]]] [[[Fin 3, Fin 4], [Fin 5, Fin 6]]]
     [[True, False]] [1] \<and>
   SimilarityModule [[[Fin 1, Fin 2]]] [[[Fin 3, Fin 4], [Fin 5, Fin 6]]] [[True, False]] [1]
     \<lparr>l2Norm = False, scaling = ''1/N^2''\<rparr> = Inr [[Fin 11]]"
  using unknown_activation_and_scaling
      [of "\<lparr>activation = ''tanh'', input_dim = 4, number_hidden_neurons = 3,
             number_hidden_layers = 1, input_dropout = 0, regularization_dropout = 0,
             associationSpace_dim = 2\<rparr>" "\<lambda>name blk. Inr blk"
          "\<lparr>l2Norm = False, scaling = ''1/N^2''\<rparr>"
          "[[[Fin 1, Fin 2]]]" "[[[Fin 3, Fin 4], [Fin 5, Fin 6]]]" "[[True, False]]" "[1]"]
  by (simp add: similarity_shapes_ok_def has_shape3_def has_shape2_def normed_def
      sum_dim2_def mul3_def similarities_of_def float_mask_def dot_Cons)

text \<open>
  Claim C3 as stated fails: called with the scaling policy \<^verbatim>\<open>"N"\<close>, the similarity
  scorer returns a result.
\<close>

theorem SimilarityModule_unknown_scaling_counterexample:
  "SimilarityModule [[[Fin 1]]] [[[Fin 2]]] [[True]] [1] \<lparr>l2Norm = False, scaling = ''N''\<rparr> =
     Inr [[Fin 2]]"
  by (simp add: SimilarityModule_def similarity_shapes_ok_def has_shape3_def has_shape2_def
      similarities_of_def dot_Cons float_mask_def mul3_def sum_dim2_def)

lemma norm32_zeros: "\<forall>e\<in>set v. e = Fin 0 \<Longrightarrow> norm32 v = Fin 0"
proof -
  assume z: "\<forall>e\<in>set v. e = Fin 0"
  then have "fsum (map (\<lambda>e. fmul e e) v) = Fin 0"
    by (induction v) simp_all
  then show ?thesis by (simp add: norm32_def)
qed

lemma l2Norm_unfold:
  assumes "l2Norm cfg"
  shows "SimilarityModule q s m n cfg =
         SimilarityModule (l2_normalize q) (l2_normalize s) m n (cfg\<lparr>l2Norm := False\<rparr>)"
  using assms by (simp add: SimilarityModule_def l2_normalize_shapes_ok)

text \<open>
  Claim C8, as amended. With L2 normalisation enabled, the similarity scorer computes on
  the query and support embeddings each divided by its computed norm, the float32 square
  root of the float32 sum of its squares, except that a computed norm that is exactly zero
  is replaced by the divisor 1. The divisor is never zero, and a zero vector stays the zero
  vector.
\<close>

theorem l2Norm_divides_by_computed_norm:
  assumes "l2Norm cfg"
  shows "SimilarityModule q s m n cfg =
           SimilarityModule (l2_normalize q) (l2_normalize s) m n (cfg\<lparr>l2Norm := False\<rparr>) \<and>
         (\<forall>x\<in>{q, s}. \<forall>b<length x. \<forall>l<length (x ! b).
            hd (zero_to_one (norm_dim2 x) ! b ! l) =
              (if norm32 (x ! b ! l) = Fin 0 then Fin 1 else norm32 (x ! b ! l)) \<and>
            hd (zero_to_one (norm_dim2 x) ! b ! l) \<noteq> Fin 0 \<and>
            l2_normalize x ! b ! l =
              map (\<lambda>e. fdiv e (hd (zero_to_one (norm_dim2 x) ! b ! l))) (x ! b ! l) \<and>
            ((\<forall>e\<in>set (x ! b ! l). e = Fin 0) \<longrightarrow> l2_normalize x ! b ! l = x ! b ! l))"
proof -
  have vec: "hd (zero_to_one (norm_dim2 x) ! b ! l) =
               (if norm32 (x ! b ! l) = Fin 0 then Fin 1 else norm32 (x ! b ! l)) \<and>
             hd (zero_to_one (norm_dim2 x) ! b ! l) \<noteq> Fin 0 \<and>
             l2_normalize x ! b ! l =
               map (\<lambda>e. fdiv e (hd (zero_to_one (norm_dim2 x) ! b ! l))) (x ! b ! l) \<and>
             ((\<forall>e\<in>set (x ! b ! l). e = Fin 0) \<longrightarrow> l2_normalize x ! b ! l = x ! b ! l)"
    if b: "b < length x" and l: "l < length (x ! b)" for x b l
  proof -
    have d: "hd (zero_to_one (norm_dim2 x) ! b ! l) =
               (if norm32 (x ! b ! l) = Fin 0 then Fin 1 else norm32 (x ! b ! l))"
      by (simp add: l2_divisor_nth [OF b l])
    have nz: "hd (zero_to_one (norm_dim2 x) ! b ! l) \<noteq> Fin 0"
      by (simp add: d)
    have r: "l2_normalize x ! b ! l =
               map (\<lambda>e. fdiv e (hd (zero_to_one (norm_dim2 x) ! b ! l))) (x ! b ! l)"
      by (simp only: d l2_normalize_nth [OF b l])
    have z: "l2_normalize x ! b ! l = x ! b ! l" if "\<forall>e\<in>set (x ! b ! l). e = Fin 0"
    proof -
      have "map (\<lambda>e. fdiv e (Fin 1)) (x ! b ! l) = x ! b ! l"
        using that by (intro map_idI) auto
      then show ?thesis
        by (simp add: l2_normalize_nth [OF b l] norm32_zeros [OF that])
    qed
    show ?thesis using d nz r z by blast
  qed
  show ?thesis
    using l2Norm_unfold [OF assms] vec by blast
qed

theorem l2Norm_divides_by_computed_norm_witness:
  "l2Norm \<lparr>l2Norm = True, scaling = ''1/N''\<rparr> \<and>
   SimilarityModule [[[Fin 2, Fin 0]]] [[[Fin 0, Fin 0]]] [[True]] [1]
     \<lparr>l2Norm = True, scaling = ''1/N''\<rparr> =
   SimilarityModule (l2_normalize [[[Fin 2, Fin 0]]]) (l2_normalize [[[Fin 0, Fin 0]]])
     [[True]] [1] (\<lparr>l2Norm = True, scaling = ''1/N''\<rparr>\<lparr>l2Norm := False\<rparr>) \<and>
   hd (zero_to_one (norm_dim2 [[[Fin 2, Fin 0]]]) ! 0 ! 0) = Fin 2 \<and>
   l2_normalize [[[Fin 2, Fin 0]]] ! 0 ! 0 = [Fin 1, Fin 0] \<and>
   set ([[[Fin 0, Fin 0]]] ! 0 ! 0) = {Fin 0} \<and>
   hd (zero_to_one (norm_dim2 [[[Fin 0, Fin 0]]]) ! 0 ! 0) = Fin 1 \<and>
   l2_normalize [[[Fin 0, Fin 0]]] ! 0 ! 0 = [Fin 0, Fin 0]"
proof -
  let ?q = "[[[Fin 2, Fin 0]]]" and ?s = "[[[Fin 0, Fin 0]]]"
  let ?cfg = "\<lparr>l2Norm = True, scaling = ''1/N''\<rparr>"
  have l2: "l2Norm ?cfg" by simp
  note inst = l2Norm_divides_by_computed_norm [OF l2, of ?q ?s "[[True]]" "[1]"]
  note eq = inst [THEN conjunct1]
  have qin: "?q \<in> {?q, ?s}" and sin: "?s \<in> {?q, ?s}" by simp_all
  have i0: "(0::nat) < length ?q" "(0::nat) < length (?q ! 0)"
    and j0: "(0::nat) < length ?s" "(0::nat) < length (?s ! 0)"
    by simp_all
  note vq = inst [THEN conjunct2, rule_format, OF qin i0]
  note vs = inst [THEN conjunct2, rule_format, OF sin j0]
  have s4: "sqrt 4 = 2" using real_sqrt_abs [of 2] by simp
  have nq: "norm32 [Fin 2, Fin 0] = Fin 2"
    by (simp add: norm32_def s4)
  have ns: "norm32 [Fin 0, Fin 0] = Fin 0"
    by (simp add: norm32_def)
  have dq: "hd (zero_to_one (norm_dim2 ?q) ! 0 ! 0) = Fin 2"
    using vq by (simp add: nq)
  have rq: "l2_normalize ?q ! 0 ! 0 = [Fin 1, Fin 0]"
    using vq unfolding dq by simp
  have zs: "\<forall>e\<in>set (?s ! 0 ! 0). e = Fin 0" by simp
  have ds: "hd (zero_to_one (norm_dim2 ?s) ! 0 ! 0) = Fin 1"
    using vs by (simp add: ns)
  have rs: "l2_normalize ?s ! 0 ! 0 = [Fin 0, Fin 0]"
    using vs [THEN conjunct2, THEN conjunct2, THEN conjunct2, THEN mp, OF zs] by simp
  have zset: "set (?s ! 0 ! 0) = {Fin 0}" by simp
  show ?thesis
    using l2 eq dq rq zset ds rs by blast
qed

text \<open>
  Claim C8 as stated fails: the squares of a small non-zero embedding underflow, its
  computed norm is zero and it is divided by 1, not by its Euclidean norm; division by the
  norm would give the unit vector.
\<close>

theorem l2_normalize_underflow_counterexample:
  "l2_normalize [[[Fin (1 / 2 ^ 100)]]] = [[[Fin (1 / 2 ^ 100)]]] \<and>
   sqrt ((1 / 2 ^ 100) ^ 2) \<noteq> 0 \<and>
   fdiv (Fin (1 / 2 ^ 100)) (Fin (sqrt ((1 / 2 ^ 100) ^ 2))) = Fin 1"
proof -
  have un: "fmul (Fin (1 / 2 ^ 100)) (Fin (1 / 2 ^ 100)) = Fin 0"
    using round32_underflow [of "1 / 2 ^ 200"] by (simp add: pow2_def)
  have sm: "round32 (1 / 2 ^ 100) = Fin (1 / 2 ^ 100)"
    using round32_pow2 [of "- 100"] by (simp add: pow2_def)
  have nrm: "norm32 [Fin (1 / 2 ^ 100)] = Fin 0"
    unfolding norm32_def by (simp only: list.map fsum_Cons fsum_Nil un) simp
  have dv: "fdiv (Fin (1 / 2 ^ 100)) (Fin 1) = Fin (1 / 2 ^ 100)"
    using sm by simp
  have l2: "l2_normalize [[[Fin (1 / 2 ^ 100)]]] = [[[Fin (1 / 2 ^ 100)]]]"
    by (simp only: l2_normalize_eq list.map nrm simp_thms if_True dv)
  have sq: "sqrt ((1 / 2 ^ 100) ^ 2) = 1 / 2 ^ 100"
    by (simp only: real_sqrt_abs) simp
  have one: "fdiv (Fin (1 / 2 ^ 100)) (Fin (1 / 2 ^ 100)) = Fin 1"
    by simp
  show ?thesis
    unfolding sq using l2 one by simp
qed

section \<open>Context module: flattening and splitting\<close>

lemma updated_rows:
  assumes s: "has_shape3 s B L D" and hs: "length hs = B * L" and b: "b < B"
  shows "reshape_B_L B L (add3 (reshape_1_BL s) [hs]) ! b =
           map2 (map2 (+)) (s ! b) (take L (drop (b * L) hs))"
proof -
  have rows: "list_all (\<lambda>r. length r = L) s" and ls: "length s = B"
    using s by (auto simp: has_shape3_def list_all_iff)
  have "reshape_B_L B L (add3 (reshape_1_BL s) [hs]) ! b =
          take L (drop (b * L) (map2 (map2 (+)) (concat s) hs))"
    using b by (simp add: reshape_B_L_def add3_def reshape_1_BL_def chunks_nth)
  also have "\<dots> = map2 (map2 (+)) (take L (drop (b * L) (concat s))) (take L (drop (b * L) hs))"
    by (simp add: take_map drop_map take_zip drop_zip)
  also have "take L (drop (b * L) (concat s)) = s ! b"
    using rows b ls by (simp add: take_drop_concat_rows)
  finally show ?thesis .
qed

lemma updated_rows_length:
  "length (reshape_B_L B L (add3 (reshape_1_BL s) [hs])) = B"
  by (simp add: reshape_B_L_def length_chunks)

lemma updated_row_length:
  assumes s: "has_shape3 s B L D" and hs: "length hs = B * L" and b: "b < B"
  shows "length (reshape_B_L B L (add3 (reshape_1_BL s) [hs]) ! b) = L"
proof -
  have "(b + 1) * L \<le> B * L"
    using b by (intro mult_le_mono1) simp
  then have "L \<le> B * L - b * L"
    by (simp add: algebra_simps)
  then show ?thesis
    using has_shape3_nth [OF s b] hs by (simp add: updated_rows [OF s hs b])
qed

lemma updated_row_nth:
  assumes s: "has_shape3 s B L D" and hs: "length hs = B * L" and b: "b < B" and k: "k < L"
  shows "reshape_B_L B L (add3 (reshape_1_BL s) [hs]) ! b ! k =
           map2 (+) (s ! b ! k) (hs ! (b * L + k))"
proof -
  have "(b + 1) * L \<le> B * L"
    using b by (intro mult_le_mono1) simp
  then have le: "b * L + k < B * L" and l: "L \<le> B * L - b * L"
    using k by (simp_all add: algebra_simps)
  have d: "drop (b * L) hs ! k = hs ! (b * L + k)"
    using b hs by (intro nth_drop) simp
  show ?thesis
    using has_shape3_nth [OF s b] hs k l by (simp add: updated_rows [OF s hs b] d)
qed

lemma same_shape3_flat:
  assumes s: "has_shape3 s B L D" and h: "has_shape3 [h] 1 (B * L) D"
  shows "same_shape3 [h] (reshape_1_BL s)"
proof -
  have lh: "length h = B * L" and vh: "\<forall>v\<in>set h. length v = D"
    using h by (auto simp: has_shape3_def list_all_iff)
  have rows: "list_all (\<lambda>r. length r = L) s" and ls: "length s = B"
    using s by (auto simp: has_shape3_def list_all_iff)
  have vs: "\<forall>v\<in>set (concat s). length v = D"
    using has_shape3_vectors [OF s] by blast
  have "map length h = replicate (B * L) D"
    using map_length_const [OF vh] lh by simp
  moreover have "map length (concat s) = replicate (B * L) D"
    using map_length_const [OF vs] length_concat_rows [OF rows] ls by simp
  ultimately show ?thesis
    by (simp add: same_shape3_def reshape_1_BL_def)
qed

text \<open>
  Claim C5. For a query of shape \<open>[B, 1, D]\<close>, actives \<open>[B, P_a, D]\<close> and inactives
  \<open>[B, P_i, D]\<close>, and a Hopfield layer that returns the retrieval \<open>[h]\<close> of shape
  \<open>[1, B (1 + P_a + P_i), D]\<close>, the three results have the shapes of the three inputs, and
  every result vector is the input vector of the same role and slot plus the retrieval at
  its position \<open>b (1 + P_a + P_i) + offset\<close> of the flattened sequence.
\<close>

theorem ContextModule_forward_roundtrip:
  assumes q: "has_shape3 q B 1 D" and a: "has_shape3 a B Pa D" and i: "has_shape3 i B Pi D"
    and hop: "hopfield (ctx, reshape_1_BL (cat_dim1 q a i), ctx) = [h]"
    and h: "has_shape3 [h] 1 (B * (1 + Pa + Pi)) D"
  shows "\<exists>q' a' i'. ContextModule_forward hopfield q a i ctx = Inr (q', a', i') \<and>
           has_shape3 q' B 1 D \<and> has_shape3 a' B Pa D \<and> has_shape3 i' B Pi D \<and>
           (\<forall>b<B. q' ! b ! 0 = map2 (+) (q ! b ! 0) (h ! (b * (1 + Pa + Pi))) \<and>
                  (\<forall>j<Pa. a' ! b ! j =
                     map2 (+) (a ! b ! j) (h ! (b * (1 + Pa + Pi) + 1 + j))) \<and>
                  (\<forall>j<Pi. i' ! b ! j =
                     map2 (+) (i ! b ! j) (h ! (b * (1 + Pa + Pi) + 1 + Pa + j))))"
proof -
  let ?L = "1 + Pa + Pi"
  let ?s = "cat_dim1 q a i"
  let ?rows = "reshape_B_L B ?L (add3 (reshape_1_BL ?s) [h])"
  have s: "has_shape3 ?s B ?L D"
    by (rule cat_dim1_shape [OF q a i])
  have lq: "length q = B" and la: "length a = B" and li: "length i = B"
    using q a i by (simp_all add: has_shape3_def)
  have ls: "length ?s = B"
    using s by (simp add: has_shape3_def)
  have lh: "length h = B * ?L" and vh: "\<forall>v\<in>set h. length v = D"
    using h by (auto simp: has_shape3_def list_all_iff)
  have compat: "cat_dim1_compatible q a i"
    by (rule cat_dim1_compatibleI [OF q a i])
  have same: "same_shape3 [h] (reshape_1_BL ?s)"
    by (rule same_shape3_flat [OF s h])
  have rows_len: "length ?rows = B"
    by (rule updated_rows_length)
  have row_len: "length (?rows ! b) = ?L" if "b < B" for b
    by (rule updated_row_length [OF s lh that])
  have row_nth: "?rows ! b ! k = map2 (+) (?s ! b ! k) (h ! (b * ?L + k))"
    if "b < B" and "k < ?L" for b k
    by (rule updated_row_nth [OF s lh that])
  have sb: "?s ! b = q ! b @ a ! b @ i ! b" if "b < B" for b
    using that lq la li by (simp add: cat_dim1_nth)
  have h_vec: "length (h ! (b * ?L + k)) = D" if "b < B" and "k < ?L" for b k
  proof -
    have "(b + 1) * ?L \<le> B * ?L"
      using that(1) by (intro mult_le_mono1) simp
    then have "b * ?L + k < length h"
      using that(2) lh by (simp add: algebra_simps)
    then show ?thesis using vh by simp
  qed
  have s_vec: "length (?s ! b ! k) = D" if "b < B" and "k < ?L" for b k
    by (rule has_shape3_nth_nth [OF s that])
  have row_vec: "length (?rows ! b ! k) = D" if "b < B" and "k < ?L" for b k
    using row_nth [OF that] h_vec [OF that] s_vec [OF that] by simp
  have nonempty: "\<not> list_ex (\<lambda>r. r = []) ?rows"
  proof -
    have "r \<noteq> []" if "r \<in> set ?rows" for r
    proof -
      from that obtain b where "b < B" and "r = ?rows ! b"
        using rows_len by (auto simp: in_set_conv_nth)
      with row_len [of b] show ?thesis by auto
    qed
    then show ?thesis by (auto simp: list_ex_iff)
  qed
  show ?thesis
  proof (cases "B = 0")
    case True
    have "ContextModule_forward hopfield q a i ctx = Inr ([], [], [])"
      using True lq la li compat same hop
      by (simp add: ContextModule_forward_def Let_def cat_dim1_def reshape_B_L_def)
    then show ?thesis
      using True by (simp add: has_shape3_def)
  next
    case False
    then have pos: "0 < B" by simp
    have sh_s: "shape1 ?s = ?L" by (rule shape1_pos [OF s pos])
    have sh_a: "shape1 a = Pa" by (rule shape1_pos [OF a pos])
    let ?q' = "map (\<lambda>r. [hd r]) ?rows"
    let ?a' = "map (\<lambda>r. take Pa (drop 1 r)) ?rows"
    let ?i' = "map (\<lambda>r. drop (Pa + 1) r) ?rows"
    have fw: "ContextModule_forward hopfield q a i ctx = Inr (?q', ?a', ?i')"
      using compat same hop nonempty
      by (simp add: ContextModule_forward_def Let_def ls sh_s sh_a)
    have q'_nth: "?q' ! b ! 0 = map2 (+) (q ! b ! 0) (h ! (b * ?L))" if "b < B" for b
    proof -
      have "?rows ! b \<noteq> []" using row_len [OF that] by auto
      then have "hd (?rows ! b) = ?rows ! b ! 0" by (simp add: hd_conv_nth)
      also have "\<dots> = map2 (+) (?s ! b ! 0) (h ! (b * ?L + 0))"
        by (rule row_nth [OF that]) simp
      finally show ?thesis
        using that rows_len sb [OF that] has_shape3_nth [OF q that]
        by (simp add: nth_append)
    qed
    have a'_nth: "?a' ! b ! j = map2 (+) (a ! b ! j) (h ! (b * ?L + 1 + j))"
      if "b < B" and "j < Pa" for b j
    proof -
      have "?a' ! b ! j = ?rows ! b ! (1 + j)"
        using that rows_len row_len [OF that(1)] by simp
      also have "\<dots> = map2 (+) (?s ! b ! (1 + j)) (h ! (b * ?L + (1 + j)))"
        by (rule row_nth [OF that(1)]) (use that(2) in simp)
      finally show ?thesis
        using that sb [OF that(1)] has_shape3_nth [OF q that(1)] has_shape3_nth [OF a that(1)]
        by (simp add: nth_append add.assoc)
    qed
    have i'_nth: "?i' ! b ! j = map2 (+) (i ! b ! j) (h ! (b * ?L + 1 + Pa + j))"
      if "b < B" and "j < Pi" for b j
    proof -
      have "?i' ! b ! j = ?rows ! b ! (Pa + 1 + j)"
        using that rows_len row_len [OF that(1)] by simp
      also have "\<dots> = map2 (+) (?s ! b ! (Pa + 1 + j)) (h ! (b * ?L + (Pa + 1 + j)))"
        by (rule row_nth [OF that(1)]) (use that(2) in simp)
      finally show ?thesis
        using that sb [OF that(1)] has_shape3_nth [OF q that(1)] has_shape3_nth [OF a that(1)]
        by (simp add: nth_append algebra_simps)
    qed
    have shq: "has_shape3 ?q' B 1 D"
    proof (rule has_shape3I)
      show "length ?q' = B" using rows_len by simp
      show "length (?q' ! b) = 1" if "b < B" for b
        using that rows_len by simp
      show "length (?q' ! b ! l) = D" if "b < B" and "l < 1" for b l
        using that q'_nth [OF that(1)] has_shape3_nth_nth [OF q that(1), of 0]
          h_vec [OF that(1), of 0]
        by simp
    qed
    have sha: "has_shape3 ?a' B Pa D"
    proof (rule has_shape3I)
      show "length ?a' = B" using rows_len by simp
      show "length (?a' ! b) = Pa" if "b < B" for b
        using that rows_len row_len [OF that] by simp
      show "length (?a' ! b ! l) = D" if "b < B" and "l < Pa" for b l
        using a'_nth [OF that] has_shape3_nth_nth [OF a that]
          h_vec [OF that(1), of "1 + l"] that(2)
        by (simp add: add.assoc)
    qed
    have shi: "has_shape3 ?i' B Pi D"
    proof (rule has_shape3I)
      show "length ?i' = B" using rows_len by simp
      show "length (?i' ! b) = Pi" if "b < B" for b
        using that rows_len row_len [OF that] by simp
      show "length (?i' ! b ! l) = D" if "b < B" and "l < Pi" for b l
        using i'_nth [OF that] has_shape3_nth_nth [OF i that]
          h_vec [OF that(1), of "1 + Pa + l"] that(2)
        by (simp add: add.assoc)
    qed
    show ?thesis
      using fw shq sha shi q'_nth a'_nth i'_nth by blast
  qed
qed

theorem ContextModule_forward_roundtrip_witness:
  "has_shape3 [[[1]], [[2 :: int]]] 2 1 1 \<and>
   has_shape3 [[[3]], [[4 :: int]]] 2 1 1 \<and>
   has_shape3 [[[5]], [[6 :: int]]] 2 1 1 \<and>
   (\<lambda>(c :: int tensor3, st :: int tensor3, p :: int tensor3).
        [[[10], [20], [30], [40], [50], [60 :: int]]])
     ([[[7]]], reshape_1_BL (cat_dim1 [[[1]], [[2]]] [[[3]], [[4]]] [[[5]], [[6]]]),
      [[[7]]]) = [[[10], [20], [30], [40], [50], [60]]] \<and>
   has_shape3 [[[10], [20], [30], [40], [50], [60 :: int]]] 1 (2 * (1 + 1 + 1)) 1 \<and>
   (\<exists>q' a' i'.
      ContextModule_forward (\<lambda>(c, st, p). [[[10], [20], [30], [40], [50], [60 :: int]]])
        [[[1]], [[2]]] [[[3]], [[4]]] [[[5]], [[6]]] [[[7]]] = Inr (q', a', i') \<and>
      has_shape3 q' 2 1 1 \<and> has_shape3 a' 2 1 1 \<and> has_shape3 i' 2 1 1 \<and>
      q' ! 0 ! 0 = [11] \<and> a' ! 0 ! 0 = [23] \<and> i' ! 0 ! 0 = [35] \<and>
      q' ! 1 ! 0 = [42] \<and> a' ! 1 ! 0 = [54] \<and> i' ! 1 ! 0 = [66])"
proof -
  let ?hop = "\<lambda>(c :: int tensor3, st :: int tensor3, p :: int tensor3).
                [[[10], [20], [30], [40], [50], [60 :: int]]]"
  have q: "has_shape3 [[[1]], [[2 :: int]]] 2 1 1"
    and a: "has_shape3 [[[3]], [[4 :: int]]] 2 1 1"
    and i: "has_shape3 [[[5]], [[6 :: int]]] 2 1 1"
    by (simp_all add: has_shape3_def)
  have hop: "?hop ([[[7]]], reshape_1_BL (cat_dim1 [[[1]], [[2]]] [[[3]], [[4]]] [[[5]], [[6]]]),
               [[[7]]]) = [[[10], [20], [30], [40], [50], [60]]]"
    by simp
  have h: "has_shape3 [[[10], [20], [30], [40], [50], [60 :: int]]] 1 (2 * (1 + 1 + 1)) 1"
    by (simp add: has_shape3_def)
  from ContextModule_forward_roundtrip
      [where hopfield = "?hop" and ctx = "[[[7]]]", OF q a i hop h]
  obtain q' a' i' where
    fw: "ContextModule_forward ?hop [[[1]], [[2]]] [[[3]], [[4]]] [[[5]], [[6]]] [[[7]]] =
           Inr (q', a', i')"
    and sh: "has_shape3 q' 2 1 1" "has_shape3 a' 2 1 1" "has_shape3 i' 2 1 1"
    and idx: "\<forall>b<2. q' ! b ! 0 =
                 map2 (+) ([[[1]], [[2]]] ! b ! 0)
                   ([[10], [20], [30], [40], [50], [60]] ! (b * (1 + 1 + 1))) \<and>
               (\<forall>j<1. a' ! b ! j =
                 map2 (+) ([[[3]], [[4]]] ! b ! j)
                   ([[10], [20], [30], [40], [50], [60]] ! (b * (1 + 1 + 1) + 1 + j))) \<and>
               (\<forall>j<1. i' ! b ! j =
                 map2 (+) ([[[5]], [[6]]] ! b ! j)
                   ([[10], [20], [30], [40], [50], [60]] ! (b * (1 + 1 + 1) + 1 + 1 + j)))"
    by blast
  from idx have b0: "q' ! 0 ! 0 = [11] \<and> a' ! 0 ! 0 = [23] \<and> i' ! 0 ! 0 = [35]"
    by simp
  from idx have "(1::nat) < 2 \<longrightarrow> q' ! 1 ! 0 = [42] \<and> a' ! 1 ! 0 = [54] \<and> i' ! 1 ! 0 = [66]"
    by (auto dest!: spec [where x = 1])
  then have b1: "q' ! 1 ! 0 = [42] \<and> a' ! 1 ! 0 = [54] \<and> i' ! 1 ! 0 = [66]"
    by simp
  show ?thesis
    using q a i hop h fw sh b0 b1 by blast
qed

end
